theory Spec2Isabelle
  imports Main "HOL-Library.Word" "HOL-Library.Sublist"
begin

unbundle bit_operations_syntax

text \<open>
  A model of the chat client's streaming exchange and of its persistence: the service
  call \<^verbatim>\<open>ChatApiService.sendMessage\<close>, the component's \<^verbatim>\<open>handleSendMessage\<close> with its
  callbacks and state updates, and the \<^verbatim>\<open>storage\<close> object with the effects that use
  it. State is passed explicitly; what is thrown is a value; what the platform provides
  (\<^verbatim>\<open>TextDecoder\<close>, \<^verbatim>\<open>trim\<close>, \<^verbatim>\<open>localStorage\<close>) is modelled after its standard, or
  taken as a parameter (\<^verbatim>\<open>JSON\<close> text, \<^verbatim>\<open>Date\<close> strings).
\<close>

section \<open>JavaScript values used by the chat client\<close>

text \<open>
  A JavaScript string is a sequence of UTF-16 code units; the body of an HTTP response
  arrives as chunks of bytes (\<^verbatim>\<open>Uint8Array\<close>).
\<close>

type_synonym jsstring = "16 word list"
type_synonym bytes = "8 word list"

text \<open>An ASCII string literal of the source, as code units.\<close>

definition js :: "string \<Rightarrow> jsstring" where
  "js s = map (\<lambda>c. of_nat (of_char c)) s"

text \<open>
  What a \<^verbatim>\<open>throw\<close> or a rejected promise carries: an \<^verbatim>\<open>Error\<close> object with its
  message, or any other value (the source tests \<^verbatim>\<open>error instanceof Error\<close>).
\<close>

datatype thrown = Error jsstring | NonError

text \<open>
  Template-literal rendering of a non-negative integer (\<^verbatim>\<open>`${response.status}`\<close>):
  its decimal digits.
\<close>

fun toString :: "nat \<Rightarrow> jsstring" where
  "toString n =
     (if n < 10 then [of_nat (48 + n)]
      else toString (n div 10) @ [of_nat (48 + n mod 10)])"

declare toString.simps [simp del]

subsection \<open>\<^verbatim>\<open>String.prototype.trim\<close>\<close>

text \<open>
  The platform's \<^verbatim>\<open>trim\<close> removes leading and trailing code units that are ECMAScript
  WhiteSpace or LineTerminator.
\<close>

definition isWhiteSpace :: "16 word \<Rightarrow> bool" where
  "isWhiteSpace c \<longleftrightarrow>
     c \<in> {0x9, 0xA, 0xB, 0xC, 0xD, 0x20, 0xA0, 0x1680, 0x2028, 0x2029, 0x202F, 0x205F,
          0x3000, 0xFEFF}
     \<or> (0x2000 \<le> c \<and> c \<le> 0x200A)"

definition trim :: "jsstring \<Rightarrow> jsstring" where
  "trim s = rev (dropWhile isWhiteSpace (rev (dropWhile isWhiteSpace s)))"

subsection \<open>\<^verbatim>\<open>TextDecoder\<close> (UTF-8, non-fatal)\<close>

text \<open>
  The platform's streaming UTF-8 decoder, after the WHATWG Encoding Standard: the state
  of the UTF-8 decoder (code point, bytes seen, bytes needed, lower and upper boundary)
  and the \<^verbatim>\<open>TextDecoder\<close>'s BOM-seen flag. \<^verbatim>\<open>new TextDecoder()\<close> is UTF-8 with
  \<^verbatim>\<open>fatal = false\<close> and \<^verbatim>\<open>ignoreBOM = false\<close>: malformed input yields U+FFFD and
  never throws.
\<close>

record TextDecoder =
  code_point :: nat
  bytes_seen :: nat
  bytes_needed :: nat
  lower_boundary :: "8 word"
  upper_boundary :: "8 word"
  bom_seen :: bool

definition new_TextDecoder :: TextDecoder where
  "new_TextDecoder =
     \<lparr>code_point = 0, bytes_seen = 0, bytes_needed = 0,
      lower_boundary = 0x80, upper_boundary = 0xBF, bom_seen = False\<rparr>"

text \<open>The handler's step for a byte read while no sequence is open.\<close>

definition utf8_lead :: "TextDecoder \<Rightarrow> 8 word \<Rightarrow> nat list \<times> TextDecoder" where
  "utf8_lead d b =
     (if b \<le> 0x7F then ([unat b], d)
      else if 0xC2 \<le> b \<and> b \<le> 0xDF then
        ([], d\<lparr>code_point := unat (b AND 0x1F), bytes_needed := 1\<rparr>)
      else if 0xE0 \<le> b \<and> b \<le> 0xEF then
        ([], d\<lparr>code_point := unat (b AND 0xF), bytes_needed := 2,
               lower_boundary := (if b = 0xE0 then 0xA0 else lower_boundary d),
               upper_boundary := (if b = 0xED then 0x9F else upper_boundary d)\<rparr>)
      else if 0xF0 \<le> b \<and> b \<le> 0xF4 then
        ([], d\<lparr>code_point := unat (b AND 0x7), bytes_needed := 3,
               lower_boundary := (if b = 0xF0 then 0x90 else lower_boundary d),
               upper_boundary := (if b = 0xF4 then 0x8F else upper_boundary d)\<rparr>)
      else ([0xFFFD], d))"

text \<open>
  The handler for one byte. A byte outside the boundaries of an open sequence resets the
  state, emits U+FFFD and is read again as a lead byte.
\<close>

definition utf8_handler :: "TextDecoder \<Rightarrow> 8 word \<Rightarrow> nat list \<times> TextDecoder" where
  "utf8_handler d b =
     (if bytes_needed d = 0 then utf8_lead d b
      else if b < lower_boundary d \<or> upper_boundary d < b then
        (let (out, d') =
               utf8_lead (d\<lparr>code_point := 0, bytes_needed := 0, bytes_seen := 0,
                             lower_boundary := 0x80, upper_boundary := 0xBF\<rparr>) b
         in (0xFFFD # out, d'))
      else
        (let d1 = d\<lparr>lower_boundary := 0x80, upper_boundary := 0xBF,
                      code_point := push_bit 6 (code_point d) OR unat (b AND 0x3F),
                      bytes_seen := bytes_seen d + 1\<rparr>
         in if bytes_seen d1 \<noteq> bytes_needed d1 then ([], d1)
            else ([code_point d1],
                  d1\<lparr>code_point := 0, bytes_needed := 0, bytes_seen := 0\<rparr>)))"

text \<open>A scalar value as UTF-16 code units (a surrogate pair above the BMP).\<close>

definition utf16 :: "nat \<Rightarrow> jsstring" where
  "utf16 cp =
     (if cp < 0x10000 then [of_nat cp]
      else [0xD800 + of_nat (drop_bit 10 (cp - 0x10000)),
            0xDC00 + of_nat ((cp - 0x10000) AND 0x3FF)])"

text \<open>
  Serialising the decoder's output: the first code point of the stream is dropped when
  it is the byte order mark U+FEFF.
\<close>

fun serialize :: "TextDecoder \<Rightarrow> nat list \<Rightarrow> jsstring \<times> TextDecoder" where
  "serialize d [] = ([], d)"
| "serialize d (cp # cps) =
     (if \<not> bom_seen d then
        (let (out, d') = serialize (d\<lparr>bom_seen := True\<rparr>) cps
         in ((if cp = 0xFEFF then [] else utf16 cp) @ out, d'))
      else
        (let (out, d') = serialize d cps in (utf16 cp @ out, d')))"

definition decode_byte :: "TextDecoder \<Rightarrow> 8 word \<Rightarrow> jsstring \<times> TextDecoder" where
  "decode_byte d b = (let (cps, d') = utf8_handler d b in serialize d' cps)"

text \<open>
  \<^verbatim>\<open>decoder.decode(value, { stream: true })\<close>: every byte of the chunk goes through the
  handler; the end of the chunk does not flush, so an open sequence stays in the state.
\<close>

fun decode :: "TextDecoder \<Rightarrow> bytes \<Rightarrow> jsstring \<times> TextDecoder" where
  "decode d [] = ([], d)"
| "decode d (b # bs) =
     (let (out, d') = decode_byte d b;
          (rest, d'') = decode d' bs
      in (out @ rest, d''))"

text \<open>
  The decoder's end-of-input operation (\<^verbatim>\<open>decode()\<close> without \<^verbatim>\<open>stream\<close>): an open
  sequence is closed with U+FFFD.
\<close>

definition flush :: "TextDecoder \<Rightarrow> jsstring \<times> TextDecoder" where
  "flush d =
     (if bytes_needed d \<noteq> 0 then serialize (d\<lparr>bytes_needed := 0\<rparr>) [0xFFFD]
      else ([], d))"

text \<open>The text decoding of a whole byte sequence: a fresh decoder, all bytes, then the flush.\<close>

definition decode_text :: "bytes \<Rightarrow> jsstring" where
  "decode_text bs =
     (let (out, d) = decode new_TextDecoder bs in out @ fst (flush d))"

section \<open>The streaming request: \<^verbatim>\<open>ChatApiService.sendMessage\<close>\<close>

text \<open>The request payload (\<^verbatim>\<open>ChatRequest\<close> of \<^verbatim>\<open>types/chat.ts\<close>).\<close>

record ChatRequest =
  developer_message :: jsstring
  user_message :: jsstring
  model :: "jsstring option"
  api_key :: jsstring
  pdf_id :: "jsstring option"

text \<open>
  One settled \<^verbatim>\<open>reader.read()\<close>: \<^verbatim>\<open>{done: true}\<close>, \<^verbatim>\<open>{done: false, value}\<close>, or a
  rejection. A body stream is the sequence of its reads: \<open>reader n\<close> is what the
  \<open>n\<close>-th call returns.
\<close>

datatype ReadResult = Done | Value bytes | ReadRejected thrown

type_synonym reader = "nat \<Rightarrow> ReadResult"

text \<open>
  What \<^verbatim>\<open>fetch\<close> resolves to, as far as the source reads it: \<^verbatim>\<open>response.ok\<close>,
  \<^verbatim>\<open>response.status\<close> and \<^verbatim>\<open>response.body?.getReader()\<close> (\<open>None\<close> when the
  response has no body).
\<close>

record Response =
  ok :: bool
  status :: nat
  body :: "reader option"

text \<open>
  A call that has settled either returned or threw, in both cases leaving a state
  behind. The caller's callbacks are state transformers of this kind.
\<close>

datatype 's outcome = Returned 's | Threw thrown 's

text \<open>
  The \<^verbatim>\<open>while (true)\<close> loop of \<^verbatim>\<open>sendMessage\<close>, from the \<open>n\<close>-th read on.
  \<open>None\<close> is a loop that never leaves (a stream that never ends and never fails).
\<close>

partial_function (option) read_loop ::
  "reader \<Rightarrow> (jsstring \<Rightarrow> 's \<Rightarrow> 's outcome) \<Rightarrow> ('s \<Rightarrow> 's outcome) \<Rightarrow>
   nat \<Rightarrow> TextDecoder \<Rightarrow> jsstring \<Rightarrow> 's \<Rightarrow> 's outcome option" where
  "read_loop reader onChunk onComplete n decoder buffer s =
     (case reader n of
        ReadRejected e \<Rightarrow> Some (Threw e s)
      | Done \<Rightarrow>
          (if trim buffer \<noteq> [] then
             (case onChunk buffer s of
                Threw e s' \<Rightarrow> Some (Threw e s')
              | Returned s' \<Rightarrow> Some (onComplete s'))
           else Some (onComplete s))
      | Value v \<Rightarrow>
          (case decode decoder v of
             (chunk, decoder') \<Rightarrow>
               (case onChunk chunk s of
                  Threw e s' \<Rightarrow> Some (Threw e s')
                | Returned s' \<Rightarrow>
                    read_loop reader onChunk onComplete (n + 1) decoder' (buffer @ chunk) s')))"

text \<open>
  \<^verbatim>\<open>sendMessage(request, onChunk, onComplete, onError)\<close>. \<open>fetch\<close> is the
  environment's answer to the POST, acting on the state (the caller records the request
  there). Everything inside \<^verbatim>\<open>try\<close> that throws ends in the \<^verbatim>\<open>catch\<close>, which calls
  \<^verbatim>\<open>onError\<close> with the error's message.
\<close>

definition sendMessage ::
  "(ChatRequest \<Rightarrow> 's \<Rightarrow> (thrown + Response) \<times> 's) \<Rightarrow> ChatRequest \<Rightarrow>
   (jsstring \<Rightarrow> 's \<Rightarrow> 's outcome) \<Rightarrow> ('s \<Rightarrow> 's outcome) \<Rightarrow>
   (jsstring \<Rightarrow> 's \<Rightarrow> 's outcome) \<Rightarrow> 's \<Rightarrow> 's outcome option" where
  "sendMessage fetch request onChunk onComplete onError s =
     (let tried =
        (case fetch request s of
           (Inl e, s1) \<Rightarrow> Some (Threw e s1)
         | (Inr response, s1) \<Rightarrow>
             if \<not> ok response then
               Some (Threw (Error (js ''HTTP error! status: '' @ toString (status response))) s1)
             else
               (case body response of
                  None \<Rightarrow> Some (Threw (Error (js ''No response body reader available'')) s1)
                | Some reader \<Rightarrow>
                    read_loop reader onChunk onComplete 0 new_TextDecoder [] s1))
      in case tried of
           None \<Rightarrow> None
         | Some (Returned s') \<Rightarrow> Some (Returned s')
         | Some (Threw error s') \<Rightarrow>
             Some (onError (case error of Error message \<Rightarrow> message
                                        | NonError \<Rightarrow> js ''An unknown error occurred'') s'))"

section \<open>Messages and the chat state (\<^verbatim>\<open>types/chat.ts\<close>)\<close>

datatype Role = User | Assistant | Questions

text \<open>
  What the \<^verbatim>\<open>timestamp\<close> property holds at run time: a \<^verbatim>\<open>Date\<close> object (with its
  time value in milliseconds, or invalid), or, in a message that came out of
  \<^verbatim>\<open>JSON.parse\<close> and has not been coerced yet, a string or \<^verbatim>\<open>null\<close>.
\<close>

datatype timestamp_value =
  DateObject int | InvalidDate | StringValue jsstring | NullValue

record MultipleChoiceQuestion =
  question :: jsstring
  choices :: "jsstring list"
  correct_answer :: int
  explanation :: jsstring

record Message =
  msg_id :: jsstring
  content :: jsstring
  role :: Role
  timestamp :: timestamp_value
  questions :: "MultipleChoiceQuestion list option"
  topic :: "jsstring option"
  difficulty :: "jsstring option"
  question_types :: "jsstring list option"
  has_context :: "bool option"
  context_chunks_used :: "int option"

text \<open>An object literal \<^verbatim>\<open>{id, content, role, timestamp}\<close>: the optional properties are absent.\<close>

definition new_Message :: "jsstring \<Rightarrow> jsstring \<Rightarrow> Role \<Rightarrow> timestamp_value \<Rightarrow> Message" where
  "new_Message i c r t =
     \<lparr>msg_id = i, content = c, role = r, timestamp = t, questions = None, topic = None,
      difficulty = None, question_types = None, has_context = None,
      context_chunks_used = None\<rparr>"

record ChatState =
  messages :: "Message list"
  isLoading :: bool
  isTyping :: bool

section \<open>The chat component (\<^verbatim>\<open>ChatInterface.tsx\<close>)\<close>

text \<open>
  The component's state as far as sending reads or writes it, together with the two
  effects on its surroundings that the claims speak of: the \<^verbatim>\<open>alert\<close>s shown and the
  POST requests issued, each in order.
\<close>

record Session =
  chatState :: ChatState
  inputMessage :: jsstring
  apiKey :: jsstring
  developerMessage :: jsstring
  showSettings :: bool
  selectedPDFId :: "jsstring option"
  alerts :: "jsstring list"
  requests :: "ChatRequest list"

definition initial_ChatState :: ChatState where
  "initial_ChatState = \<lparr>messages = [], isLoading = False, isTyping = False\<rparr>"

definition setChatState :: "(ChatState \<Rightarrow> ChatState) \<Rightarrow> Session \<Rightarrow> Session" where
  "setChatState f s = s\<lparr>chatState := f (chatState s)\<rparr>"

subsection \<open>The updaters handed to \<^verbatim>\<open>setChatState\<close>\<close>

definition addUserMessage :: "Message \<Rightarrow> ChatState \<Rightarrow> ChatState" where
  "addUserMessage userMessage prev =
     prev\<lparr>messages := messages prev @ [userMessage], isLoading := True, isTyping := True\<rparr>"

definition addAssistantMessage :: "Message \<Rightarrow> ChatState \<Rightarrow> ChatState" where
  "addAssistantMessage assistantMessage prev =
     prev\<lparr>messages := messages prev @ [assistantMessage]\<rparr>"

definition setContent :: "jsstring \<Rightarrow> jsstring \<Rightarrow> ChatState \<Rightarrow> ChatState" where
  "setContent assistantMessageId c prev =
     prev\<lparr>messages :=
            map (\<lambda>msg. if msg_id msg = assistantMessageId then msg\<lparr>content := c\<rparr> else msg)
              (messages prev)\<rparr>"

definition stopLoading :: "ChatState \<Rightarrow> ChatState" where
  "stopLoading prev = prev\<lparr>isLoading := False, isTyping := False\<rparr>"

definition setError :: "jsstring \<Rightarrow> jsstring \<Rightarrow> ChatState \<Rightarrow> ChatState" where
  "setError assistantMessageId error prev =
     prev\<lparr>messages :=
            map (\<lambda>msg. if msg_id msg = assistantMessageId
                       then msg\<lparr>content := js ''Error: '' @ error\<rparr> else msg)
              (messages prev),
          isLoading := False, isTyping := False\<rparr>"

subsection \<open>The callbacks of \<^verbatim>\<open>handleSendMessage\<close>\<close>

text \<open>
  The callbacks close over the local variable \<^verbatim>\<open>assistantContent\<close>, so they act on it
  and on the session. The updater handed to \<^verbatim>\<open>setChatState\<close> is applied at once, with
  the value the variable has then.
\<close>

definition onChunk :: "jsstring \<Rightarrow> jsstring \<Rightarrow> jsstring \<times> Session \<Rightarrow> jsstring \<times> Session" where
  "onChunk assistantMessageId chunk = (\<lambda>(assistantContent, s).
     (assistantContent @ chunk,
      setChatState (setContent assistantMessageId (assistantContent @ chunk)) s))"

definition onComplete :: "jsstring \<times> Session \<Rightarrow> jsstring \<times> Session" where
  "onComplete = (\<lambda>(assistantContent, s). (assistantContent, setChatState stopLoading s))"

definition onError :: "jsstring \<Rightarrow> jsstring \<Rightarrow> jsstring \<times> Session \<Rightarrow> jsstring \<times> Session" where
  "onError assistantMessageId error = (\<lambda>(assistantContent, s).
     (assistantContent, setChatState (setError assistantMessageId error) s))"

subsection \<open>\<^verbatim>\<open>handleSendMessage\<close>\<close>

text \<open>
  What one send takes from outside the component: the two results of
  \<^verbatim>\<open>generateMessageId()\<close>, the two readings of the clock (\<^verbatim>\<open>new Date()\<close>), and the
  network's answer to the request.
\<close>

record SendEnv =
  userMessageId :: jsstring
  userTime :: int
  assistantMessageId :: jsstring
  assistantTime :: int
  network :: "ChatRequest \<Rightarrow> thrown + Response"

text \<open>\<^verbatim>\<open>fetch\<close> as the component's surroundings see it: the request is issued, then answered.\<close>

definition fetch ::
  "(ChatRequest \<Rightarrow> thrown + Response) \<Rightarrow> ChatRequest \<Rightarrow> jsstring \<times> Session \<Rightarrow>
   (thrown + Response) \<times> (jsstring \<times> Session)" where
  "fetch net request = (\<lambda>(assistantContent, s).
     (net request, (assistantContent, s\<lparr>requests := requests s @ [request]\<rparr>)))"

text \<open>The request object literal handed to \<^verbatim>\<open>sendMessage\<close>.\<close>

definition chatRequest :: "Session \<Rightarrow> Message \<Rightarrow> ChatRequest" where
  "chatRequest s userMessage =
     \<lparr>developer_message = developerMessage s,
      user_message = content userMessage,
      model = Some (js ''gpt-4o-mini''),
      api_key = apiKey s,
      pdf_id = (case selectedPDFId s of
                  None \<Rightarrow> None
                | Some p \<Rightarrow> if p = [] then None else Some p)\<rparr>"

definition userMessage :: "SendEnv \<Rightarrow> Session \<Rightarrow> Message" where
  "userMessage env s =
     new_Message (userMessageId env) (trim (inputMessage s)) User (DateObject (userTime env))"

definition assistantMessage :: "SendEnv \<Rightarrow> Message" where
  "assistantMessage env =
     new_Message (assistantMessageId env) [] Assistant (DateObject (assistantTime env))"

text \<open>
  The synchronous part of a send that passed the guard: the user message is appended and
  both flags are raised, the input is cleared, the empty assistant message is appended.
\<close>

definition beginSend :: "SendEnv \<Rightarrow> Session \<Rightarrow> Session" where
  "beginSend env s =
     (let s1 = setChatState (addUserMessage (userMessage env s)) s;
          s2 = s1\<lparr>inputMessage := []\<rparr>
      in setChatState (addAssistantMessage (assistantMessage env)) s2)"

text \<open>
  \<open>None\<close> is a send that never settles. The last case is the \<^verbatim>\<open>catch\<close> around the
  call of \<^verbatim>\<open>sendMessage\<close>.
\<close>

definition handleSendMessage :: "SendEnv \<Rightarrow> Session \<Rightarrow> Session option" where
  "handleSendMessage env s =
     (if trim (inputMessage s) = [] \<or> trim (apiKey s) = [] then
        Some (if trim (apiKey s) = [] then
                s\<lparr>alerts := alerts s @ [js ''Please enter your OpenAI API key in settings''],
                  showSettings := True\<rparr>
              else s)
      else
        (case sendMessage (fetch (network env)) (chatRequest s (userMessage env s))
                (\<lambda>chunk st. Returned (onChunk (assistantMessageId env) chunk st))
                (\<lambda>st. Returned (onComplete st))
                (\<lambda>error st. Returned (onError (assistantMessageId env) error st))
                ([], beginSend env s) of
           None \<Rightarrow> None
         | Some (Returned (assistantContent, s')) \<Rightarrow> Some s'
         | Some (Threw error (assistantContent, s')) \<Rightarrow>
             Some (setChatState
                     (setError (assistantMessageId env)
                        (case error of Error message \<Rightarrow> message
                                     | NonError \<Rightarrow> js ''Unknown error''))
                     s')))"

text \<open>\<^verbatim>\<open>clearChatHistory\<close>'s update of the component state.\<close>

definition clearMessages :: "ChatState \<Rightarrow> ChatState" where
  "clearMessages prev = prev\<lparr>messages := []\<rparr>"

section \<open>Persistence (\<^verbatim>\<open>lib/utils.ts\<close> and the component's effects)\<close>

subsection \<open>The platform: \<^verbatim>\<open>localStorage\<close>, \<^verbatim>\<open>JSON\<close>, \<^verbatim>\<open>Date\<close>\<close>

text \<open>
  \<^verbatim>\<open>localStorage\<close>: string items under string keys. Whether the browser has room for
  what a write would leave in the store is the browser's rule (\<open>has_room\<close>); a write it
  has no room for throws. \<open>window_defined\<close> is \<^verbatim>\<open>typeof window !== 'undefined'\<close>.
\<close>

record LocalStorage =
  window_defined :: bool
  items :: "(jsstring \<times> jsstring) list"
  has_room :: "(jsstring \<times> jsstring) list \<Rightarrow> bool"

definition getItem :: "LocalStorage \<Rightarrow> jsstring \<Rightarrow> jsstring option" where
  "getItem ls k = map_of (items ls) k"

definition setItem :: "LocalStorage \<Rightarrow> jsstring \<Rightarrow> jsstring \<Rightarrow> thrown + LocalStorage" where
  "setItem ls k v =
     (let items' = (k, v) # filter (\<lambda>(k', v'). k' \<noteq> k) (items ls)
      in if \<not> has_room ls items' then Inl (Error (js ''QuotaExceededError''))
         else Inr (ls\<lparr>items := items'\<rparr>))"

definition removeItem :: "LocalStorage \<Rightarrow> jsstring \<Rightarrow> LocalStorage" where
  "removeItem ls k = ls\<lparr>items := filter (\<lambda>(k', v'). k' \<noteq> k) (items ls)\<rparr>"

text \<open>
  A value as JSON text can hold it. The numbers of a message are counts and indices, so
  they are taken as integers.
\<close>

datatype json =
  JNull | JBool bool | JNumber int | JString jsstring | JArray "json list"
  | JObject "(jsstring \<times> json) list"

text \<open>
  The text of a JSON value (\<^verbatim>\<open>JSON.stringify\<close>), the value of a text (\<^verbatim>\<open>JSON.parse\<close>,
  \<open>Inl\<close> being its \<^verbatim>\<open>SyntaxError\<close>), and the two conversions between a time value
  and its ISO string are the platform's; they are taken as parameters.
\<close>

record Platform =
  JSON_stringify :: "json \<Rightarrow> jsstring"
  JSON_parse :: "jsstring \<Rightarrow> thrown + json"
  toISOString :: "int \<Rightarrow> jsstring"
  Date_parse :: "jsstring \<Rightarrow> int option"

text \<open>
  What \<^verbatim>\<open>JSON.stringify\<close> makes of a message before it writes text: an object with the
  message's properties in their order, a \<^verbatim>\<open>Date\<close> replaced by its \<^verbatim>\<open>toJSON()\<close> (the
  ISO string, or \<^verbatim>\<open>null\<close> for an invalid date), an absent property left out.
\<close>

definition json_of_timestamp :: "Platform \<Rightarrow> timestamp_value \<Rightarrow> json" where
  "json_of_timestamp p t =
     (case t of
        DateObject ms \<Rightarrow> JString (toISOString p ms)
      | InvalidDate \<Rightarrow> JNull
      | StringValue str \<Rightarrow> JString str
      | NullValue \<Rightarrow> JNull)"

definition json_of_Role :: "Role \<Rightarrow> json" where
  "json_of_Role r =
     (case r of
        User \<Rightarrow> JString (js ''user'')
      | Assistant \<Rightarrow> JString (js ''assistant'')
      | Questions \<Rightarrow> JString (js ''questions''))"

definition json_of_Question :: "MultipleChoiceQuestion \<Rightarrow> json" where
  "json_of_Question q =
     JObject
       [(js ''question'', JString (question q)),
        (js ''choices'', JArray (map JString (choices q))),
        (js ''correct_answer'', JNumber (correct_answer q)),
        (js ''explanation'', JString (explanation q))]"

definition optional :: "string \<Rightarrow> ('a \<Rightarrow> json) \<Rightarrow> 'a option \<Rightarrow> (jsstring \<times> json) list" where
  "optional k enc v = (case v of None \<Rightarrow> [] | Some x \<Rightarrow> [(js k, enc x)])"

definition json_of_Message :: "Platform \<Rightarrow> Message \<Rightarrow> json" where
  "json_of_Message p m =
     JObject
       ([(js ''id'', JString (msg_id m)),
         (js ''content'', JString (content m)),
         (js ''role'', json_of_Role (role m)),
         (js ''timestamp'', json_of_timestamp p (timestamp m))] @
        optional ''questions'' (\<lambda>qs. JArray (map json_of_Question qs)) (questions m) @
        optional ''topic'' JString (topic m) @
        optional ''difficulty'' JString (difficulty m) @
        optional ''question_types'' (\<lambda>ts. JArray (map JString ts)) (question_types m) @
        optional ''has_context'' JBool (has_context m) @
        optional ''context_chunks_used'' JNumber (context_chunks_used m))"

text \<open>
  The other way: a parsed value read at the type the source declares for it
  (\<^verbatim>\<open>Message[]\<close>; nothing checks it at run time). The reading is exact on every value
  that \<open>json_of_Message\<close> produces. Outside those it is only a typed approximation: a
  property that is absent, or is not of its declared type, reads as empty here, where
  the code keeps whatever was parsed (so that \<^verbatim>\<open>new Date\<close> of an absent timestamp is an
  invalid date, and of a number is that time value); and a parsed value that is no array
  reads as the empty list, where the code returns it unchecked.
\<close>

definition property :: "json \<Rightarrow> string \<Rightarrow> json option" where
  "property j k = (case j of JObject kvs \<Rightarrow> map_of kvs (js k) | _ \<Rightarrow> None)"

definition string_of :: "json option \<Rightarrow> jsstring" where
  "string_of v = (case v of Some (JString str) \<Rightarrow> str | _ \<Rightarrow> [])"

definition strings_of :: "json option \<Rightarrow> jsstring list" where
  "strings_of v = (case v of Some (JArray xs) \<Rightarrow> map (\<lambda>x. string_of (Some x)) xs | _ \<Rightarrow> [])"

definition number_of :: "json option \<Rightarrow> int" where
  "number_of v = (case v of Some (JNumber n) \<Rightarrow> n | _ \<Rightarrow> 0)"

definition Role_of :: "json option \<Rightarrow> Role" where
  "Role_of v =
     (if v = Some (JString (js ''user'')) then User
      else if v = Some (JString (js ''questions'')) then Questions
      else Assistant)"

definition timestamp_of :: "json option \<Rightarrow> timestamp_value" where
  "timestamp_of v = (case v of Some (JString str) \<Rightarrow> StringValue str | _ \<Rightarrow> NullValue)"

definition Question_of :: "json \<Rightarrow> MultipleChoiceQuestion" where
  "Question_of j =
     \<lparr>question = string_of (property j ''question''),
      choices = strings_of (property j ''choices''),
      correct_answer = number_of (property j ''correct_answer''),
      explanation = string_of (property j ''explanation'')\<rparr>"

definition Message_of :: "json \<Rightarrow> Message" where
  "Message_of j =
     \<lparr>msg_id = string_of (property j ''id''),
      content = string_of (property j ''content''),
      role = Role_of (property j ''role''),
      timestamp = timestamp_of (property j ''timestamp''),
      questions = (case property j ''questions'' of
                     Some (JArray qs) \<Rightarrow> Some (map Question_of qs) | _ \<Rightarrow> None),
      topic = (case property j ''topic'' of Some (JString str) \<Rightarrow> Some str | _ \<Rightarrow> None),
      difficulty = (case property j ''difficulty'' of
                      Some (JString str) \<Rightarrow> Some str | _ \<Rightarrow> None),
      question_types = (case property j ''question_types'' of
                          Some (JArray ts) \<Rightarrow> Some (strings_of (Some (JArray ts)))
                        | _ \<Rightarrow> None),
      has_context = (case property j ''has_context'' of Some (JBool b) \<Rightarrow> Some b | _ \<Rightarrow> None),
      context_chunks_used = (case property j ''context_chunks_used'' of
                               Some (JNumber n) \<Rightarrow> Some n | _ \<Rightarrow> None)\<rparr>"

definition Messages_of :: "json \<Rightarrow> Message list" where
  "Messages_of j = (case j of JArray elements \<Rightarrow> map Message_of elements | _ \<Rightarrow> [])"

text \<open>\<^verbatim>\<open>new Date(v)\<close>, in terms of \<open>Date_parse\<close>; \<^verbatim>\<open>new Date(null)\<close> is the epoch.\<close>

definition new_Date :: "Platform \<Rightarrow> timestamp_value \<Rightarrow> timestamp_value" where
  "new_Date p v =
     (case v of
        DateObject ms \<Rightarrow> DateObject ms
      | InvalidDate \<Rightarrow> InvalidDate
      | StringValue str \<Rightarrow>
          (case Date_parse p str of Some ms \<Rightarrow> DateObject ms | None \<Rightarrow> InvalidDate)
      | NullValue \<Rightarrow> DateObject 0)"

subsection \<open>The \<^verbatim>\<open>storage\<close> object\<close>

definition chat_history_key :: jsstring where
  "chat_history_key = js ''chat-history''"

text \<open>An absent item and the empty string are both falsy; a \<^verbatim>\<open>JSON.parse\<close> error is caught.\<close>

definition getChatHistory :: "Platform \<Rightarrow> LocalStorage \<Rightarrow> Message list" where
  "getChatHistory p ls =
     (if \<not> window_defined ls then []
      else
        (case getItem ls chat_history_key of
           None \<Rightarrow> []
         | Some stored \<Rightarrow>
             if stored = [] then []
             else (case JSON_parse p stored of
                     Inl e \<Rightarrow> []
                   | Inr parsed \<Rightarrow> Messages_of parsed)))"

text \<open>A failed write is caught and logged; the store stays as it was.\<close>

definition saveChatHistory :: "Platform \<Rightarrow> LocalStorage \<Rightarrow> Message list \<Rightarrow> LocalStorage" where
  "saveChatHistory p ls msgs =
     (if \<not> window_defined ls then ls
      else
        (case setItem ls chat_history_key
                (JSON_stringify p (JArray (map (json_of_Message p) msgs))) of
           Inl e \<Rightarrow> ls
         | Inr ls' \<Rightarrow> ls'))"

definition storage_clearChatHistory :: "LocalStorage \<Rightarrow> LocalStorage" where
  "storage_clearChatHistory ls =
     (if \<not> window_defined ls then ls else removeItem ls chat_history_key)"

subsection \<open>The component's use of the store\<close>

definition default_developerMessage :: jsstring where
  "default_developerMessage =
     js ''You are a helpful AI assistant. Please provide clear, concise, and accurate responses.''"

text \<open>The component as \<^verbatim>\<open>useState\<close> initialises it on a page load.\<close>

definition initial_Session :: Session where
  "initial_Session =
     \<lparr>chatState = initial_ChatState, inputMessage = [], apiKey = [],
      developerMessage = default_developerMessage, showSettings = False,
      selectedPDFId = None, alerts = [], requests = []\<rparr>"

definition loadSaved :: "Platform \<Rightarrow> Message list \<Rightarrow> ChatState \<Rightarrow> ChatState" where
  "loadSaved p savedMessages prev =
     prev\<lparr>messages := map (\<lambda>msg. msg\<lparr>timestamp := new_Date p (timestamp msg)\<rparr>) savedMessages\<rparr>"

text \<open>
  The mount effect: the saved messages and the saved API key are read into the state.
  (The list of uploaded PDFs it also requests is no part of this state.)
\<close>

definition mount :: "Platform \<Rightarrow> LocalStorage \<Rightarrow> Session \<Rightarrow> Session" where
  "mount p ls s =
     (let savedMessages = getChatHistory p ls;
          s1 = (if length savedMessages > 0 then setChatState (loadSaved p savedMessages) s
                else s)
      in case getItem ls (js ''openai-api-key'') of
           None \<Rightarrow> s1
         | Some savedApiKey \<Rightarrow> if savedApiKey = [] then s1 else s1\<lparr>apiKey := savedApiKey\<rparr>)"

text \<open>The effect that runs when \<^verbatim>\<open>chatState.messages\<close> has changed.\<close>

definition saveEffect :: "Platform \<Rightarrow> Session \<Rightarrow> LocalStorage \<Rightarrow> LocalStorage" where
  "saveEffect p s ls =
     (if length (messages (chatState s)) > 0 then saveChatHistory p ls (messages (chatState s))
      else ls)"

text \<open>The component's \<^verbatim>\<open>clearChatHistory\<close>: the state update, then the store.\<close>

definition clearChatHistory :: "Session \<times> LocalStorage \<Rightarrow> Session \<times> LocalStorage" where
  "clearChatHistory = (\<lambda>(s, ls). (setChatState clearMessages s, storage_clearChatHistory ls))"

section \<open>Notions used to state the properties\<close>

text \<open>The chunks as the decoder turns them into text, one after the other.\<close>

fun decode_chunks :: "TextDecoder \<Rightarrow> bytes list \<Rightarrow> jsstring list \<times> TextDecoder" where
  "decode_chunks d [] = ([], d)"
| "decode_chunks d (c # cs) =
     (let (out, d') = decode d c;
          (outs, d'') = decode_chunks d' cs
      in (out # outs, d''))"

text \<open>A body stream that delivers the chunks \<open>cs\<close> and then answers \<open>final\<close>.\<close>

definition delivers :: "reader \<Rightarrow> bytes list \<Rightarrow> ReadResult \<Rightarrow> bool" where
  "delivers reader cs final \<longleftrightarrow>
     map reader [0..<length cs] = map Value cs \<and> reader (length cs) = final"

text \<open>What the loop hands to \<open>onChunk\<close> when the stream is exhausted after \<open>cs\<close>.\<close>

definition emitted :: "bytes list \<Rightarrow> jsstring list" where
  "emitted cs =
     (let outs = fst (decode_chunks new_TextDecoder cs); buffer = concat outs
      in outs @ (if trim buffer \<noteq> [] then [buffer] else []))"

text \<open>The state in which a send that passed the guard waits for the network's answer.\<close>

definition awaiting :: "SendEnv \<Rightarrow> Session \<Rightarrow> Session" where
  "awaiting env s =
     (beginSend env s)\<lparr>requests := requests s @ [chatRequest s (userMessage env s)]\<rparr>"

text \<open>The calls a run of \<^verbatim>\<open>sendMessage\<close> makes to its three callbacks.\<close>

datatype callback_event = ChunkCalled jsstring | CompleteCalled | ErrorCalled jsstring

fun terminal :: "callback_event \<Rightarrow> bool" where
  "terminal (ChunkCalled c) = False"
| "terminal CompleteCalled = True"
| "terminal (ErrorCalled e) = True"

text \<open>A callback that, besides what it does, records that it was called.\<close>

definition logged ::
  "callback_event \<Rightarrow> ('s \<Rightarrow> 's outcome) \<Rightarrow> 's \<times> callback_event list \<Rightarrow>
   ('s \<times> callback_event list) outcome" where
  "logged ev cb = (\<lambda>(s, log).
     case cb s of
       Returned s' \<Rightarrow> Returned (s', log @ [ev])
     | Threw e s' \<Rightarrow> Threw e (s', log @ [ev]))"

definition logged_fetch ::
  "(ChatRequest \<Rightarrow> 's \<Rightarrow> (thrown + Response) \<times> 's) \<Rightarrow> ChatRequest \<Rightarrow>
   's \<times> callback_event list \<Rightarrow> (thrown + Response) \<times> ('s \<times> callback_event list)" where
  "logged_fetch f request = (\<lambda>(s, log). case f request s of (r, s') \<Rightarrow> (r, (s', log)))"

definition logged_sendMessage ::
  "(ChatRequest \<Rightarrow> 's \<Rightarrow> (thrown + Response) \<times> 's) \<Rightarrow> ChatRequest \<Rightarrow>
   (jsstring \<Rightarrow> 's \<Rightarrow> 's outcome) \<Rightarrow> ('s \<Rightarrow> 's outcome) \<Rightarrow>
   (jsstring \<Rightarrow> 's \<Rightarrow> 's outcome) \<Rightarrow> 's \<Rightarrow> ('s \<times> callback_event list) outcome option" where
  "logged_sendMessage f request chunkCb completeCb errorCb s =
     sendMessage (logged_fetch f) request
       (\<lambda>c. logged (ChunkCalled c) (chunkCb c))
       (logged CompleteCalled completeCb)
       (\<lambda>e. logged (ErrorCalled e) (errorCb e))
       (s, [])"

text \<open>
  How an exchange that settles can go: \<^verbatim>\<open>fetch\<close> rejects; the status is no success;
  the response has no body; the stream delivers chunks and is then exhausted; the stream
  delivers chunks and a read then fails.
\<close>

datatype course =
  FetchFailed thrown | BadStatus | NoBody | Exhausted "bytes list" | ReadFailed "bytes list" thrown

definition takes_course :: "thrown + Response \<Rightarrow> course \<Rightarrow> bool" where
  "takes_course answer c =
     (case answer of
        Inl e \<Rightarrow> c = FetchFailed e
      | Inr response \<Rightarrow>
          if \<not> ok response then c = BadStatus
          else
            (case body response of
               None \<Rightarrow> c = NoBody
             | Some reader \<Rightarrow>
                 (case c of
                    Exhausted cs \<Rightarrow> delivers reader cs Done
                  | ReadFailed cs e \<Rightarrow> delivers reader cs (ReadRejected e)
                  | _ \<Rightarrow> False)))"

text \<open>The message that the \<^verbatim>\<open>catch\<close> of \<^verbatim>\<open>sendMessage\<close> hands to \<^verbatim>\<open>onError\<close>.\<close>

definition error_message :: "thrown \<Rightarrow> jsstring" where
  "error_message e =
     (case e of Error message \<Rightarrow> message | NonError \<Rightarrow> js ''An unknown error occurred'')"

text \<open>The one terminal callback a course ends in.\<close>

definition terminal_call :: "thrown + Response \<Rightarrow> course \<Rightarrow> callback_event" where
  "terminal_call answer c =
     (case c of
        FetchFailed e \<Rightarrow> ErrorCalled (error_message e)
      | BadStatus \<Rightarrow>
          ErrorCalled (js ''HTTP error! status: '' @
            toString (case answer of Inr response \<Rightarrow> status response | Inl e \<Rightarrow> 0))
      | NoBody \<Rightarrow> ErrorCalled (js ''No response body reader available'')
      | Exhausted cs \<Rightarrow> CompleteCalled
      | ReadFailed cs e \<Rightarrow> ErrorCalled (error_message e))"

text \<open>The strings a course hands to \<^verbatim>\<open>onChunk\<close>, in order.\<close>

definition chunk_calls :: "course \<Rightarrow> jsstring list" where
  "chunk_calls c =
     (case c of
        Exhausted cs \<Rightarrow> emitted cs
      | ReadFailed cs e \<Rightarrow> fst (decode_chunks new_TextDecoder cs)
      | _ \<Rightarrow> [])"

text \<open>The state a settled call leaves behind.\<close>

definition returned :: "'s outcome \<Rightarrow> 's" where
  "returned r = (case r of Returned s \<Rightarrow> s | Threw e s \<Rightarrow> s)"

text \<open>
  The states the component can be in, with the number of sends in flight. Every rule is a
  step of the source, taken in any order the event loop may run them: the mount effect;
  an event that leaves \<^verbatim>\<open>chatState\<close> alone (typing, the settings, the guard's alert, the
  request going out); the synchronous part of a send that passed the guard; the three
  callbacks; the \<^verbatim>\<open>catch\<close> of \<^verbatim>\<open>handleSendMessage\<close>; \<^verbatim>\<open>clearChatHistory\<close>.
\<close>

inductive reachable :: "nat \<Rightarrow> Session \<Rightarrow> bool" where
  initial: "reachable 0 initial_Session"
| mounted: "reachable k s \<Longrightarrow> reachable k (mount p ls s)"
| edited: "reachable k s \<Longrightarrow> chatState s' = chatState s \<Longrightarrow> reachable k s'"
| send_begun:
    "reachable k s \<Longrightarrow> trim (inputMessage s) \<noteq> [] \<Longrightarrow> trim (apiKey s) \<noteq> [] \<Longrightarrow>
     reachable (Suc k) (beginSend env s)"
| chunk_applied:
    "reachable (Suc k) s \<Longrightarrow> reachable (Suc k) (snd (onChunk aid chunk (ac, s)))"
| completed: "reachable (Suc k) s \<Longrightarrow> reachable k (snd (onComplete (ac, s)))"
| errored: "reachable (Suc k) s \<Longrightarrow> reachable k (snd (onError aid e (ac, s)))"
| caught: "reachable (Suc k) s \<Longrightarrow> reachable k (setChatState (setError aid e) s)"
| cleared: "reachable k s \<Longrightarrow> reachable k (fst (clearChatHistory (s, ls)))"

subsection \<open>Concrete inputs\<close>

text \<open>A session in which a message and an API key have been typed.\<close>

definition example_session :: Session where
  "example_session = initial_Session\<lparr>inputMessage := js ''Hi '', apiKey := js ''sk-1''\<rparr>"

text \<open>A stream of the given chunks, exhausted after the last.\<close>

definition stream_of :: "bytes list \<Rightarrow> reader" where
  "stream_of cs = (\<lambda>n. if n < length cs then Value (cs ! n) else Done)"

definition ok_response :: "bytes list \<Rightarrow> Response" where
  "ok_response cs = \<lparr>ok = True, status = 200, body = Some (stream_of cs)\<rparr>"

definition example_env :: "thrown + Response \<Rightarrow> SendEnv" where
  "example_env answer =
     \<lparr>userMessageId = js ''msg_1_u'', userTime = 1000,
      assistantMessageId = js ''msg_1_a'', assistantTime = 1001,
      network = (\<lambda>request. answer)\<rparr>"

definition example_request :: ChatRequest where
  "example_request =
     \<lparr>developer_message = default_developerMessage, user_message = js ''Hi'',
      model = Some (js ''gpt-4o-mini''), api_key = js ''sk-1'', pdf_id = None\<rparr>"

text \<open>A session in the middle of a send: a user message and the assistant message in flight.\<close>

definition example_streaming :: Session where
  "example_streaming =
     initial_Session
       \<lparr>chatState :=
          \<lparr>messages =
             [new_Message (js ''msg_1_u'') (js ''Hi'') User (DateObject 1000),
              new_Message (js ''msg_1_a'') [] Assistant (DateObject 1001)],
           isLoading = True, isTyping = True\<rparr>\<rparr>"

text \<open>
  A platform as far as one saved history goes: the JSON text of \<open>example_messages\<close> and
  the ISO string of its timestamp, each with its way back.
\<close>

definition example_messages :: "Message list" where
  "example_messages = [new_Message (js ''msg_1_u'') (js ''Hi'') User (DateObject 1000)]"

definition example_iso :: jsstring where
  "example_iso = js ''1970-01-01T00:00:01.000Z''"

definition dq :: "jsstring \<Rightarrow> jsstring" where
  "dq str = [0x22] @ str @ [0x22]"

definition example_json :: jsstring where
  "example_json =
     js ''[{'' @ dq (js ''id'') @ js '':'' @ dq (js ''msg_1_u'') @ js '','' @
     dq (js ''content'') @ js '':'' @ dq (js ''Hi'') @ js '','' @
     dq (js ''role'') @ js '':'' @ dq (js ''user'') @ js '','' @
     dq (js ''timestamp'') @ js '':'' @ dq example_iso @ js ''}]''"

definition example_platform :: Platform where
  "example_platform =
     \<lparr>JSON_stringify = (\<lambda>j.
        if j = JArray [JObject [(js ''id'', JString (js ''msg_1_u'')),
                                (js ''content'', JString (js ''Hi'')),
                                (js ''role'', JString (js ''user'')),
                                (js ''timestamp'', JString example_iso)]]
        then example_json else js ''[]''),
      JSON_parse = (\<lambda>text.
        if text = example_json
        then Inr (JArray [JObject [(js ''id'', JString (js ''msg_1_u'')),
                                    (js ''content'', JString (js ''Hi'')),
                                    (js ''role'', JString (js ''user'')),
                                    (js ''timestamp'', JString example_iso)]])
        else if text = js ''[]'' then Inr (JArray [])
        else Inl (Error (js ''SyntaxError''))),
      toISOString = (\<lambda>ms. if ms = 1000 then example_iso else []),
      Date_parse = (\<lambda>str. if str = example_iso then Some 1000 else None)\<rparr>"

text \<open>
  A browser's store that holds an older history and an API key, and has room for five
  million code units.
\<close>

definition example_storage :: LocalStorage where
  "example_storage =
     \<lparr>window_defined = True,
      items = [(js ''openai-api-key'', js ''sk-1''), (chat_history_key, js ''[]'')],
      has_room = (\<lambda>kvs. sum_list (map (\<lambda>(k, v). length k + length v) kvs) \<le> 5000000)\<rparr>"

section \<open>Properties\<close>

subsection \<open>The decoder does not see chunk boundaries\<close>

lemma decode_append:
  "decode d (xs @ ys) =
     (let (o1, d1) = decode d xs; (o2, d2) = decode d1 ys in (o1 @ o2, d2))"
  by (induction xs arbitrary: d) (simp_all add: split_beta Let_def)

lemma decode_chunks_concat:
  "decode d (concat cs) = (concat (fst (decode_chunks d cs)), snd (decode_chunks d cs))"
  by (induction cs arbitrary: d) (simp_all add: decode_append split_beta Let_def)

lemma length_decode_chunks: "length (fst (decode_chunks d cs)) = length cs"
  by (induction cs arbitrary: d) (simp_all add: split_beta Let_def)

subsection \<open>The read loop on a stream that ends\<close>

lemma read_loop_chunks:
  assumes "map reader [n..<n + length cs] = map Value cs"
  shows "read_loop reader (\<lambda>c st. Returned (oc c st)) fin n d buf s =
         read_loop reader (\<lambda>c st. Returned (oc c st)) fin (n + length cs)
           (snd (decode_chunks d cs)) (buf @ concat (fst (decode_chunks d cs)))
           (fold oc (fst (decode_chunks d cs)) s)"
  using assms
proof (induction cs arbitrary: n d buf s)
  case Nil
  then show ?case by simp
next
  case (Cons c cs)
  have "[n..<n + length (c # cs)] = n # [Suc n..<Suc n + length cs]"
    by (subst upt_rec) (simp del: upt_Suc)
  with Cons.prems have "map reader (n # [Suc n..<Suc n + length cs]) = map Value (c # cs)"
    by (simp only:)
  then have hd: "reader n = Value c"
    and tl: "map reader [Suc n..<Suc n + length cs] = map Value cs"
    by (simp_all only: list.map list.inject)
  show ?case
    apply (subst read_loop.simps)
    apply (simp add: hd split_beta Let_def)
    apply (subst Cons.IH [OF tl])
    apply simp
    done
qed

lemma read_loop_Done:
  assumes "delivers reader cs Done"
  shows "read_loop reader (\<lambda>c st. Returned (oc c st)) fin 0 new_TextDecoder [] s =
         Some (fin (fold oc (emitted cs) s))"
proof -
  from assms have a: "map reader [0..<0 + length cs] = map Value cs"
    and b: "reader (length cs) = Done"
    by (simp_all add: delivers_def)
  show ?thesis
    apply (subst read_loop_chunks [OF a])
    apply (subst read_loop.simps)
    apply (simp add: b Let_def emitted_def)
    done
qed

lemma read_loop_Rejected:
  assumes "delivers reader cs (ReadRejected e)"
  shows "read_loop reader (\<lambda>c st. Returned (oc c st)) fin 0 new_TextDecoder [] s =
         Some (Threw e (fold oc (fst (decode_chunks new_TextDecoder cs)) s))"
proof -
  from assms have a: "map reader [0..<0 + length cs] = map Value cs"
    and b: "reader (length cs) = ReadRejected e"
    by (simp_all add: delivers_def)
  show ?thesis
    apply (subst read_loop_chunks [OF a])
    apply (subst read_loop.simps)
    apply (simp add: b)
    done
qed

subsection \<open>\<^verbatim>\<open>sendMessage\<close> with callbacks that return\<close>

lemma sendMessage_exhausted:
  assumes "f request s = (Inr response, s1)" "ok response" "body response = Some reader"
    and "delivers reader cs Done"
  shows "sendMessage f request (\<lambda>c st. Returned (oc c st)) (\<lambda>st. Returned (fin st)) oe s =
         Some (Returned (fin (fold oc (emitted cs) s1)))"
  using assms(1-3) by (simp add: sendMessage_def read_loop_Done [OF assms(4)])

lemma sendMessage_rejected:
  assumes "f request s = (Inr response, s1)" "ok response" "body response = Some reader"
    and "delivers reader cs (ReadRejected e)"
  shows "sendMessage f request (\<lambda>c st. Returned (oc c st)) fin oe s =
         Some (oe (case e of Error message \<Rightarrow> message
                           | NonError \<Rightarrow> js ''An unknown error occurred'')
                 (fold oc (fst (decode_chunks new_TextDecoder cs)) s1))"
  using assms(1-3) by (simp add: sendMessage_def read_loop_Rejected [OF assms(4)])

lemma sendMessage_not_ok:
  assumes "f request s = (Inr response, s1)" "\<not> ok response"
  shows "sendMessage f request oc fin oe s =
         Some (oe (js ''HTTP error! status: '' @ toString (status response)) s1)"
  using assms by (simp add: sendMessage_def)

lemma sendMessage_no_body:
  assumes "f request s = (Inr response, s1)" "ok response" "body response = None"
  shows "sendMessage f request oc fin oe s =
         Some (oe (js ''No response body reader available'') s1)"
  using assms by (simp add: sendMessage_def)

lemma sendMessage_fetch_failed:
  assumes "f request s = (Inl e, s1)"
  shows "sendMessage f request oc fin oe s =
         Some (oe (case e of Error message \<Rightarrow> message
                           | NonError \<Rightarrow> js ''An unknown error occurred'') s1)"
  using assms by (simp add: sendMessage_def)

subsection \<open>The callbacks of a send\<close>

lemma setContent_setContent:
  "setContent aid c2 (setContent aid c1 st) = setContent aid c2 st"
  by (simp add: setContent_def comp_def cong: if_cong)

lemma onChunk_apply:
  "onChunk aid c (ac, s) = (ac @ c, setChatState (setContent aid (ac @ c)) s)"
  by (simp add: onChunk_def)

lemma setChatState_setContent_twice:
  "setChatState (setContent aid c2) (setChatState (setContent aid c1) s) =
     setChatState (setContent aid c2) s"
  by (simp add: setChatState_def setContent_setContent)

lemma fold_onChunk:
  "fold (onChunk aid) outs (ac, s) =
     (ac @ concat outs,
      if outs = [] then s else setChatState (setContent aid (ac @ concat outs)) s)"
proof (induction outs arbitrary: ac s)
  case Nil
  then show ?case by simp
next
  case (Cons c outs)
  show ?case
    by (simp add: onChunk_apply Cons.IH setChatState_setContent_twice)
qed

lemma fetch_awaiting:
  "fetch (network env) (chatRequest s (userMessage env s)) ([], beginSend env s) =
     (network env (chatRequest s (userMessage env s)), ([], awaiting env s))"
  by (simp add: fetch_def awaiting_def beginSend_def setChatState_def Let_def)

lemma handleSendMessage_exhausted:
  assumes "trim (inputMessage s) \<noteq> []" "trim (apiKey s) \<noteq> []"
    and "network env (chatRequest s (userMessage env s)) = Inr response"
    and "ok response" "body response = Some reader" "delivers reader cs Done"
  shows "handleSendMessage env s =
         Some (snd (onComplete (fold (onChunk (assistantMessageId env)) (emitted cs)
                                  ([], awaiting env s))))"
proof -
  have f: "fetch (network env) (chatRequest s (userMessage env s)) ([], beginSend env s) =
           (Inr response, ([], awaiting env s))"
    by (simp add: fetch_awaiting assms(3))
  show ?thesis
    using assms(1,2)
    by (simp add: handleSendMessage_def sendMessage_exhausted
          [where f = "fetch (network env)" and s = "([], beginSend env s)"
             and oc = "onChunk (assistantMessageId env)" and fin = onComplete,
           OF f assms(4,5,6)]
        split: prod.split)
qed

lemma messages_awaiting:
  "messages (chatState (awaiting env s)) =
     messages (chatState s) @ [userMessage env s, assistantMessage env]"
  by (simp add: awaiting_def beginSend_def setChatState_def addUserMessage_def
      addAssistantMessage_def Let_def)

subsection \<open>The example inputs\<close>

lemma example_guard:
  "trim (inputMessage example_session) \<noteq> []" "trim (apiKey example_session) \<noteq> []"
  by (simp_all add: example_session_def initial_Session_def trim_def js_def isWhiteSpace_def)

lemma example_trim: "trim (inputMessage example_session) = js ''Hi''"
  by (simp add: example_session_def initial_Session_def trim_def js_def isWhiteSpace_def)

lemma decode_a: "decode new_TextDecoder [0x61] = (js ''a'', new_TextDecoder\<lparr>bom_seen := True\<rparr>)"
  by (simp add: new_TextDecoder_def decode_byte_def utf8_handler_def utf8_lead_def utf16_def
      js_def)

lemma trim_a: "trim (js ''a'') = js ''a''"
  by (simp add: trim_def js_def isWhiteSpace_def)

lemma decode_chunks_a:
  "decode_chunks new_TextDecoder [[0x61]] = ([js ''a''], new_TextDecoder\<lparr>bom_seen := True\<rparr>)"
  by (simp add: decode_a del: decode.simps)

lemma emitted_a: "emitted [[0x61]] = [js ''a'', js ''a'']"
proof -
  have "js ''a'' \<noteq> []"
    by (simp add: js_def)
  then show ?thesis
    by (simp add: emitted_def decode_chunks_a trim_a Let_def del: decode_chunks.simps)
qed

lemma delivers_stream_of: "delivers (stream_of cs) cs Done"
proof -
  have "map (stream_of cs) [0..<length cs] = map Value cs"
    by (rule nth_equalityI) (simp_all add: stream_of_def)
  then show ?thesis
    by (simp add: delivers_def stream_of_def)
qed

subsection \<open>Callbacks that record their calls\<close>

lemma never_throws:
  assumes "\<forall>st. \<exists>st'. cb st = Returned st'"
  shows "cb = (\<lambda>st. Returned (returned (cb st)))"
proof
  fix st
  from assms obtain st' where "cb st = Returned st'" by blast
  then show "cb st = Returned (returned (cb st))" by (simp add: returned_def)
qed

lemma logged_Returned:
  "logged ev (\<lambda>st. Returned (g st)) = (\<lambda>st. Returned (g (fst st), snd st @ [ev]))"
  by (simp add: logged_def fun_eq_iff)

lemma fold_logged:
  "fold (\<lambda>c st. (g c (fst st), snd st @ [ChunkCalled c])) outs (s, log) =
     (fold g outs s, log @ map ChunkCalled outs)"
  by (induction outs arbitrary: s log) simp_all

lemma sendMessage_course:
  assumes "f request s = (answer, s1)" and "takes_course answer c"
  shows "sendMessage f request (\<lambda>ch st. Returned (oc ch st)) (\<lambda>st. Returned (fin st))
           (\<lambda>e st. Returned (oe e st)) s =
         Some (Returned
           (case terminal_call answer c of
              CompleteCalled \<Rightarrow> fin (fold oc (chunk_calls c) s1)
            | ErrorCalled m \<Rightarrow> oe m (fold oc (chunk_calls c) s1)
            | ChunkCalled ch \<Rightarrow> s1))"
proof (cases answer)
  case (Inl e)
  with assms show ?thesis
    by (simp add: takes_course_def terminal_call_def chunk_calls_def error_message_def
        sendMessage_fetch_failed [where ?s1.0 = s1 and e = e])
next
  case (Inr response)
  show ?thesis
  proof (cases "ok response")
    case False
    with Inr assms show ?thesis
      by (simp add: takes_course_def terminal_call_def chunk_calls_def
          sendMessage_not_ok [where ?s1.0 = s1 and response = response])
  next
    case True
    show ?thesis
    proof (cases "body response")
      case None
      with True Inr assms show ?thesis
        by (simp add: takes_course_def terminal_call_def chunk_calls_def
            sendMessage_no_body [where ?s1.0 = s1 and response = response])
    next
      case (Some reader)
      from assms(1) Inr have f: "f request s = (Inr response, s1)" by simp
      from assms(2) Inr True Some
      consider cs where "c = Exhausted cs" "delivers reader cs Done"
        | cs e where "c = ReadFailed cs e" "delivers reader cs (ReadRejected e)"
        by (auto simp: takes_course_def split: course.splits)
      then show ?thesis
      proof cases
        case 1
        then show ?thesis
          by (simp add: terminal_call_def chunk_calls_def
              sendMessage_exhausted [where f = f and request = request and s = s, OF f True Some 1(2)])
      next
        case 2
        then show ?thesis
          by (simp add: terminal_call_def chunk_calls_def error_message_def
              sendMessage_rejected [where f = f and request = request and s = s, OF f True Some 2(2)])
      qed
    qed
  qed
qed

subsection \<open>A stream that is exhausted at once\<close>

text \<open>
  Claim C7. A send that passes the guard, whose response is a success and whose first
  read reports exhaustion, settles: the sequence has grown by the user message and the
  assistant message, the assistant message's content is the empty string, and both
  flags are down. The one callback the run of \<^verbatim>\<open>sendMessage\<close> calls is \<^verbatim>\<open>onComplete\<close>.
\<close>

theorem C7_zero_chunk_stream_completes:
  assumes "trim (inputMessage s) \<noteq> []" "trim (apiKey s) \<noteq> []"
    and "network env (chatRequest s (userMessage env s)) = Inr response"
    and "ok response" "body response = Some reader" "reader 0 = Done"
  shows "\<exists>s'. handleSendMessage env s = Some s' \<and>
           messages (chatState s') =
             messages (chatState s) @ [userMessage env s, assistantMessage env] \<and>
           content (assistantMessage env) = [] \<and>
           \<not> isLoading (chatState s') \<and> \<not> isTyping (chatState s') \<and>
           (\<exists>st. logged_sendMessage (fetch (network env)) (chatRequest s (userMessage env s))
                  (\<lambda>chunk st. Returned (onChunk (assistantMessageId env) chunk st))
                  (\<lambda>st. Returned (onComplete st))
                  (\<lambda>error st. Returned (onError (assistantMessageId env) error st))
                  ([], beginSend env s) =
                Some (Returned (st, [CompleteCalled])))"
proof -
  from assms(6) have d: "delivers reader [] Done"
    by (simp add: delivers_def)
  have e: "emitted [] = []"
    by (simp add: emitted_def trim_def)
  have f: "logged_fetch (fetch (network env)) (chatRequest s (userMessage env s))
             (([], beginSend env s), []) =
           (Inr response, (([], awaiting env s), []))"
    by (simp add: logged_fetch_def fetch_awaiting assms(3))
  have l: "\<exists>st. logged_sendMessage (fetch (network env)) (chatRequest s (userMessage env s))
                  (\<lambda>chunk st. Returned (onChunk (assistantMessageId env) chunk st))
                  (\<lambda>st. Returned (onComplete st))
                  (\<lambda>error st. Returned (onError (assistantMessageId env) error st))
                  ([], beginSend env s) =
                Some (Returned (st, [CompleteCalled]))"
    unfolding logged_sendMessage_def
    by (simp add: logged_Returned
        sendMessage_exhausted
          [where f = "logged_fetch (fetch (network env))"
             and s = "(([], beginSend env s), [])", OF f assms(4,5) d] e)
  show ?thesis
    using l
    by (simp add: handleSendMessage_exhausted [OF assms(1-5) d] e onComplete_def
        setChatState_def stopLoading_def messages_awaiting assistantMessage_def
        new_Message_def)
qed


theorem C7_witness:
  "trim (inputMessage example_session) \<noteq> [] \<and> trim (apiKey example_session) \<noteq> [] \<and>
   ok (ok_response []) \<and> body (ok_response []) = Some (stream_of []) \<and> stream_of [] 0 = Done \<and>
   (\<exists>s'. handleSendMessage (example_env (Inr (ok_response []))) example_session = Some s' \<and>
      map content (messages (chatState s')) = [js ''Hi'', []] \<and>
      \<not> isLoading (chatState s') \<and> \<not> isTyping (chatState s'))"
proof -
  have n: "network (example_env (Inr (ok_response [])))
             (chatRequest example_session
                (userMessage (example_env (Inr (ok_response []))) example_session)) =
           Inr (ok_response [])"
    by (simp add: example_env_def)
  have o: "ok (ok_response [])" and b: "body (ok_response []) = Some (stream_of [])"
    and r: "stream_of [] 0 = Done"
    by (simp_all add: ok_response_def stream_of_def)
  have m: "messages (chatState example_session) = []"
    by (simp add: example_session_def initial_Session_def initial_ChatState_def)
  from C7_zero_chunk_stream_completes [OF example_guard n o b r]
  obtain s' where "handleSendMessage (example_env (Inr (ok_response []))) example_session = Some s'"
    and "messages (chatState s') =
           messages (chatState example_session) @
             [userMessage (example_env (Inr (ok_response []))) example_session,
              assistantMessage (example_env (Inr (ok_response [])))]"
    and "\<not> isLoading (chatState s')" "\<not> isTyping (chatState s')"
    by blast
  then show ?thesis
    using example_guard o b r
    by (simp add: m userMessage_def assistantMessage_def new_Message_def example_trim)
qed

subsection \<open>The terminal callback of \<^verbatim>\<open>sendMessage\<close>\<close>

text \<open>
  Claim C10. Whatever callbacks \<^verbatim>\<open>sendMessage\<close> is given, as long as none of them
  throws, a run whose exchange settles (see \<open>takes_course\<close>) returns to its caller
  without throwing, and the calls it made are: the chunk calls, then exactly one terminal
  call. That call is \<^verbatim>\<open>onComplete\<close> exactly when the stream was read to exhaustion,
  and \<^verbatim>\<open>onError\<close> on each of the other courses (rejected \<^verbatim>\<open>fetch\<close>, status that is
  no success, missing body, failed read).
\<close>

theorem C10_exactly_one_terminal_callback:
  assumes "\<forall>ch st. \<exists>st'. chunkCb ch st = Returned st'"
    and "\<forall>st. \<exists>st'. completeCb st = Returned st'"
    and "\<forall>e st. \<exists>st'. errorCb e st = Returned st'"
    and "f request s = (answer, s1)" and "takes_course answer c"
  shows "\<exists>st log. logged_sendMessage f request chunkCb completeCb errorCb s =
           Some (Returned (st, log)) \<and>
         log = map ChunkCalled (chunk_calls c) @ [terminal_call answer c] \<and>
         length (filter terminal log) = 1 \<and>
         (CompleteCalled \<in> set log \<longleftrightarrow> (\<exists>cs. c = Exhausted cs)) \<and>
         ((\<exists>m. ErrorCalled m \<in> set log) \<longleftrightarrow> (\<forall>cs. c \<noteq> Exhausted cs))"
proof -
  note f = assms(4)
  have lf: "logged_fetch f request (s, []) = (answer, (s1, []))"
    by (simp add: logged_fetch_def f)
  have c1: "chunkCb = (\<lambda>ch st. Returned (returned (chunkCb ch st)))"
  proof
    fix ch
    show "chunkCb ch = (\<lambda>st. Returned (returned (chunkCb ch st)))"
      using assms(1) by (intro never_throws) blast
  qed
  have c2: "completeCb = (\<lambda>st. Returned (returned (completeCb st)))"
    using assms(2) by (rule never_throws)
  have c3: "errorCb = (\<lambda>e st. Returned (returned (errorCb e st)))"
  proof
    fix e
    show "errorCb e = (\<lambda>st. Returned (returned (errorCb e st)))"
      using assms(3) by (intro never_throws) blast
  qed
  define oc where "oc = (\<lambda>ch st. returned (chunkCb ch st))"
  define fin where "fin = (\<lambda>st. returned (completeCb st))"
  define oe where "oe = (\<lambda>e st. returned (errorCb e st))"
  have run: "logged_sendMessage f request chunkCb completeCb errorCb s =
        sendMessage (logged_fetch f) request
          (\<lambda>ch st. Returned (oc ch (fst st), snd st @ [ChunkCalled ch]))
          (\<lambda>st. Returned (fin (fst st), snd st @ [CompleteCalled]))
          (\<lambda>e st. Returned (oe e (fst st), snd st @ [ErrorCalled e]))
          (s, [])"
    unfolding logged_sendMessage_def oc_def fin_def oe_def
    by (subst c1, subst c2, subst c3) (simp only: logged_Returned)
  note tc = assms(5)
  have nt: "filter terminal (map ChunkCalled outs) = []" for outs
    by (induction outs) simp_all
  have nc: "CompleteCalled \<notin> ChunkCalled ` A" "ErrorCalled m \<notin> ChunkCalled ` A" for A m
    by auto
  show ?thesis
    unfolding run
    apply (subst sendMessage_course
        [where f = "logged_fetch f" and request = request and s = "(s, [])", OF lf tc])
    apply (cases c)
    apply (simp_all add: f fold_logged terminal_call_def nt nc)
    done
qed

theorem C10_witness:
  "(\<forall>ch st. \<exists>st'. (\<lambda>ch (n::nat). Returned (n + length ch)) ch st = Returned st') \<and>
   takes_course (Inr (ok_response [[0x61]])) (Exhausted [[0x61]]) \<and>
   (\<exists>st. logged_sendMessage (\<lambda>request n. (Inr (ok_response [[0x61]]), n)) example_request
      (\<lambda>ch (n::nat). Returned (n + length ch)) Returned (\<lambda>e n. Returned n) 0 =
    Some (Returned (st, [ChunkCalled (js ''a''), ChunkCalled (js ''a''), CompleteCalled])))"
proof -
  have tc: "takes_course (Inr (ok_response [[0x61]])) (Exhausted [[0x61]])"
    by (simp add: takes_course_def ok_response_def delivers_stream_of)
  have a1: "\<forall>ch st. \<exists>st'. (\<lambda>ch (n::nat). Returned (n + length ch)) ch st = Returned st'"
    and a2: "\<forall>st::nat. \<exists>st'. Returned st = Returned st'"
    and a3: "\<forall>(e::jsstring) st. \<exists>st'. (\<lambda>e (n::nat). Returned n) e st = Returned st'"
    by simp_all
  have f: "(\<lambda>request (n::nat). (Inr (ok_response [[0x61]]), n)) example_request 0 =
           (Inr (ok_response [[0x61]]), 0)"
    by simp
  from C10_exactly_one_terminal_callback
    [where chunkCb = "\<lambda>ch (n::nat). Returned (n + length ch)" and completeCb = Returned
       and errorCb = "\<lambda>e n. Returned n"
       and f = "\<lambda>request (n::nat). (Inr (ok_response [[0x61]]), n)"
       and request = example_request and s = 0 and ?s1.0 = 0
       and answer = "Inr (ok_response [[0x61]])" and c = "Exhausted [[0x61]]",
     OF a1 a2 a3 f tc]
  obtain st where
    "logged_sendMessage (\<lambda>request n. (Inr (ok_response [[0x61]]), n)) example_request
       (\<lambda>ch (n::nat). Returned (n + length ch)) Returned (\<lambda>e n. Returned n) 0 =
     Some (Returned (st, [ChunkCalled (js ''a''), ChunkCalled (js ''a''), CompleteCalled]))"
    by (auto simp: chunk_calls_def emitted_a terminal_call_def)
  then show ?thesis
    using tc by simp
qed

subsection \<open>A response whose status is no success\<close>

lemma handleSendMessage_not_ok:
  assumes "trim (inputMessage s) \<noteq> []" "trim (apiKey s) \<noteq> []"
    and "network env (chatRequest s (userMessage env s)) = Inr response"
    and "\<not> ok response"
  shows "handleSendMessage env s =
         Some (snd (onError (assistantMessageId env)
                      (js ''HTTP error! status: '' @ toString (status response))
                      ([], awaiting env s)))"
proof -
  have f: "fetch (network env) (chatRequest s (userMessage env s)) ([], beginSend env s) =
           (Inr response, ([], awaiting env s))"
    by (simp add: fetch_awaiting assms(3))
  show ?thesis
    using assms(1,2)
    by (simp add: handleSendMessage_def
        sendMessage_not_ok
          [where f = "fetch (network env)" and s = "([], beginSend env s)", OF f assms(4)]
        split: prod.split)
qed

lemma msg_id_assistantMessage: "msg_id (assistantMessage env) = assistantMessageId env"
  by (simp add: assistantMessage_def new_Message_def)

text \<open>
  Claim C3. A send that passes the guard and is answered with a status that is no
  success settles whatever the response's body is (the body is never read, and
  \<^verbatim>\<open>onChunk\<close> is never called: the only callback called is \<^verbatim>\<open>onError\<close>). The assistant
  message is still the last of the sequence, which has grown by two; its content is
  \<^verbatim>\<open>Error: HTTP error! status: \<close> followed by the status; both flags are down.
\<close>

theorem C3_http_error_status:
  assumes "trim (inputMessage s) \<noteq> []" "trim (apiKey s) \<noteq> []"
    and "network env (chatRequest s (userMessage env s)) = Inr response"
    and "\<not> ok response"
  shows "\<exists>s'. handleSendMessage env s = Some s' \<and>
           length (messages (chatState s')) = length (messages (chatState s)) + 2 \<and>
           last (messages (chatState s')) =
             (assistantMessage env)
               \<lparr>content := js ''Error: HTTP error! status: '' @ toString (status response)\<rparr> \<and>
           \<not> isLoading (chatState s') \<and> \<not> isTyping (chatState s') \<and>
           (\<exists>st. logged_sendMessage (fetch (network env)) (chatRequest s (userMessage env s))
                  (\<lambda>chunk st. Returned (onChunk (assistantMessageId env) chunk st))
                  (\<lambda>st. Returned (onComplete st))
                  (\<lambda>error st. Returned (onError (assistantMessageId env) error st))
                  ([], beginSend env s) =
                Some (Returned
                  (st, [ErrorCalled (js ''HTTP error! status: '' @ toString (status response))])))"
proof -
  have f: "logged_fetch (fetch (network env)) (chatRequest s (userMessage env s))
             (([], beginSend env s), []) =
           (Inr response, (([], awaiting env s), []))"
    by (simp add: logged_fetch_def fetch_awaiting assms(3))
  have l: "\<exists>st. logged_sendMessage (fetch (network env)) (chatRequest s (userMessage env s))
                  (\<lambda>chunk st. Returned (onChunk (assistantMessageId env) chunk st))
                  (\<lambda>st. Returned (onComplete st))
                  (\<lambda>error st. Returned (onError (assistantMessageId env) error st))
                  ([], beginSend env s) =
                Some (Returned
                  (st, [ErrorCalled (js ''HTTP error! status: '' @ toString (status response))]))"
    unfolding logged_sendMessage_def
    by (simp add: sendMessage_not_ok
          [where f = "logged_fetch (fetch (network env))"
             and s = "(([], beginSend env s), [])", OF f assms(4)]
        logged_def)
  show ?thesis
    using l
    by (simp add: handleSendMessage_not_ok [OF assms] onError_def setChatState_def
        setError_def messages_awaiting last_map msg_id_assistantMessage js_def)
qed

lemma js_append: "js (a @ b) = js a @ js b"
  by (simp add: js_def)

lemma toString_500: "toString 500 = js ''500''"
  by (simp add: toString.simps js_def)

theorem C3_witness:
  "trim (inputMessage example_session) \<noteq> [] \<and> trim (apiKey example_session) \<noteq> [] \<and>
   \<not> ok (\<lparr>ok = False, status = 500, body = Some (stream_of [[0x61]])\<rparr>) \<and>
   (\<exists>s'. handleSendMessage
           (example_env (Inr \<lparr>ok = False, status = 500, body = Some (stream_of [[0x61]])\<rparr>))
           example_session = Some s' \<and>
      length (messages (chatState s')) = 2 \<and>
      content (last (messages (chatState s'))) = js ''Error: HTTP error! status: 500'' \<and>
      \<not> isLoading (chatState s') \<and> \<not> isTyping (chatState s'))"
proof -
  let ?r = "\<lparr>ok = False, status = 500, body = Some (stream_of [[0x61]])\<rparr>"
  have n: "network (example_env (Inr ?r))
             (chatRequest example_session (userMessage (example_env (Inr ?r)) example_session)) =
           Inr ?r"
    by (simp add: example_env_def)
  have o: "\<not> ok ?r" by simp
  have m: "messages (chatState example_session) = []"
    by (simp add: example_session_def initial_Session_def initial_ChatState_def)
  have e: "js ''Error: HTTP error! status: '' @ toString 500 =
           js ''Error: HTTP error! status: 500''"
    by (simp add: toString_500 js_append [symmetric])
  from C3_http_error_status [OF example_guard n o]
  obtain s' where "handleSendMessage (example_env (Inr ?r)) example_session = Some s'"
    and "length (messages (chatState s')) = length (messages (chatState example_session)) + 2"
    and "last (messages (chatState s')) =
           (assistantMessage (example_env (Inr ?r)))
             \<lparr>content := js ''Error: HTTP error! status: '' @ toString (status ?r)\<rparr>"
    and "\<not> isLoading (chatState s')" "\<not> isTyping (chatState s')"
    by blast
  then show ?thesis
    using example_guard by (simp add: m e)
qed

subsection \<open>The guard of \<^verbatim>\<open>handleSendMessage\<close>\<close>

lemma trim_Nil: "trim [] = []"
  by (simp add: trim_def)

text \<open>
  Claim C4. When the typed text is empty after trimming, or the API key is empty, the
  send settles at once: the chat state, and with it the message sequence, is as it was,
  and no request has been issued.
\<close>

theorem C4_guard_blocks_send:
  assumes "trim (inputMessage s) = [] \<or> apiKey s = []"
  shows "\<exists>s'. handleSendMessage env s = Some s' \<and> chatState s' = chatState s \<and>
           messages (chatState s') = messages (chatState s) \<and> requests s' = requests s"
  using assms by (auto simp: handleSendMessage_def trim_Nil)

theorem C4_witness:
  "(trim (inputMessage (example_session\<lparr>inputMessage := js ''  ''\<rparr>)) = [] \<or>
    apiKey (example_session\<lparr>inputMessage := js ''  ''\<rparr>) = []) \<and>
   (\<exists>s'. handleSendMessage (example_env (Inr (ok_response [[0x61]])))
            (example_session\<lparr>inputMessage := js ''  ''\<rparr>) = Some s' \<and>
      messages (chatState s') = [] \<and> requests s' = [])"
proof -
  have g: "trim (inputMessage (example_session\<lparr>inputMessage := js ''  ''\<rparr>)) = [] \<or>
           apiKey (example_session\<lparr>inputMessage := js ''  ''\<rparr>) = []"
    by (simp add: trim_def js_def isWhiteSpace_def)
  from C4_guard_blocks_send [OF g, of "example_env (Inr (ok_response [[0x61]]))"] g
  show ?thesis
    by (auto simp: example_session_def initial_Session_def initial_ChatState_def)
qed

subsection \<open>Applying chunks\<close>

lemma map_if_unique:
  assumes "i < length msgs" "msg_id (msgs ! i) = aid"
    and "\<forall>j<length msgs. j \<noteq> i \<longrightarrow> msg_id (msgs ! j) \<noteq> aid"
  shows "map (\<lambda>msg. if msg_id msg = aid then msg\<lparr>content := c\<rparr> else msg) msgs =
         msgs[i := (msgs ! i)\<lparr>content := c\<rparr>]"
  using assms by (intro nth_equalityI) (auto simp: nth_list_update)

lemma messages_fold_onChunk:
  assumes "i < length (messages (chatState s))" "msg_id (messages (chatState s) ! i) = aid"
    and "\<forall>j<length (messages (chatState s)). j \<noteq> i \<longrightarrow> msg_id (messages (chatState s) ! j) \<noteq> aid"
    and "content (messages (chatState s) ! i) = ac"
  shows "messages (chatState (snd (fold (onChunk aid) chunks (ac, s)))) =
         (messages (chatState s))
           [i := (messages (chatState s) ! i)\<lparr>content := ac @ concat chunks\<rparr>]"
proof (cases "chunks = []")
  case True
  have "(messages (chatState s) ! i)\<lparr>content := ac\<rparr> = messages (chatState s) ! i"
    using assms(4) by simp
  with True show ?thesis by (simp add: fold_onChunk)
next
  case False
  then show ?thesis
    by (simp add: fold_onChunk setChatState_def setContent_def map_if_unique [OF assms(1-3)])
qed

lemma flags_fold_onChunk:
  "isLoading (chatState (snd (fold (onChunk aid) chunks (ac, s)))) = isLoading (chatState s) \<and>
   isTyping (chatState (snd (fold (onChunk aid) chunks (ac, s)))) = isTyping (chatState s)"
  by (simp add: fold_onChunk setChatState_def setContent_def)

text \<open>
  Claim C5. Take a session in which exactly one message, at position \<open>i\<close>, carries the
  id of the send in flight, and its content is the text accumulated so far. After any
  chunks have been applied, in the order given, the accumulated text is the old text
  followed by those chunks in that order, and the sequence is the old sequence with that
  text as the content at position \<open>i\<close> and nothing else changed (so the ids, the roles,
  the timestamps, the length and the order are as they were). One more chunk appends to
  the content at \<open>i\<close>, so what was published before is a prefix of what is published
  now. The two flags are not touched.
\<close>

theorem C5_chunks_only_extend_the_message_in_flight:
  assumes "i < length (messages (chatState s))" "msg_id (messages (chatState s) ! i) = aid"
    and "\<forall>j<length (messages (chatState s)). j \<noteq> i \<longrightarrow> msg_id (messages (chatState s) ! j) \<noteq> aid"
    and "content (messages (chatState s) ! i) = ac"
  shows "fst (fold (onChunk aid) chunks (ac, s)) = ac @ concat chunks \<and>
         messages (chatState (snd (fold (onChunk aid) chunks (ac, s)))) =
           (messages (chatState s))
             [i := (messages (chatState s) ! i)\<lparr>content := ac @ concat chunks\<rparr>] \<and>
         map msg_id (messages (chatState (snd (fold (onChunk aid) chunks (ac, s))))) =
           map msg_id (messages (chatState s)) \<and>
         map role (messages (chatState (snd (fold (onChunk aid) chunks (ac, s))))) =
           map role (messages (chatState s)) \<and>
         map timestamp (messages (chatState (snd (fold (onChunk aid) chunks (ac, s))))) =
           map timestamp (messages (chatState s)) \<and>
         content (messages (chatState (snd (fold (onChunk aid) (chunks @ [c]) (ac, s)))) ! i) =
           content (messages (chatState (snd (fold (onChunk aid) chunks (ac, s)))) ! i) @ c \<and>
         prefix (content (messages (chatState (snd (fold (onChunk aid) chunks (ac, s)))) ! i))
           (content (messages (chatState (snd (fold (onChunk aid) (chunks @ [c]) (ac, s)))) ! i)) \<and>
         isLoading (chatState (snd (fold (onChunk aid) chunks (ac, s)))) = isLoading (chatState s) \<and>
         isTyping (chatState (snd (fold (onChunk aid) chunks (ac, s)))) = isTyping (chatState s)"
proof -
  note m = messages_fold_onChunk [OF assms]
  have ids: "map f (xs[i := (xs ! i)\<lparr>content := x\<rparr>]) = map f xs"
    if "\<And>m x. f (m\<lparr>content := x\<rparr>) = f m" for f :: "Message \<Rightarrow> 'b" and xs x
    by (cases "i < length xs") (auto simp: nth_list_update that intro!: nth_equalityI)
  have c: "content (messages (chatState (snd (fold (onChunk aid) cs (ac, s)))) ! i) =
           ac @ concat cs" for cs
    using assms(1) by (simp add: m)
  have f: "fst (fold (onChunk aid) chunks (ac, s)) = ac @ concat chunks"
    by (simp add: fold_onChunk)
  show ?thesis
    apply (intro conjI)
            apply (rule f)
           apply (rule m)
          apply (simp add: m ids)
         apply (simp add: m ids)
        apply (simp add: m ids)
       apply (simp only: c concat_append concat.simps append_Nil2 append_assoc)
      apply (simp only: c concat_append concat.simps append_Nil2 append_assoc [symmetric]
        prefixI)
     apply (simp add: flags_fold_onChunk)
    apply (simp add: flags_fold_onChunk)
    done
qed

theorem C5_witness:
  "(1::nat) < length (messages (chatState example_streaming)) \<and>
   msg_id (messages (chatState example_streaming) ! 1) = js ''msg_1_a'' \<and>
   content (messages (chatState example_streaming) ! 1) = [] \<and>
   map content (messages (chatState (snd
       (fold (onChunk (js ''msg_1_a'')) [js ''a'', js ''500''] ([], example_streaming))))) =
     [js ''Hi'', js ''a500'']"
proof -
  have m: "messages (chatState example_streaming) =
             [new_Message (js ''msg_1_u'') (js ''Hi'') User (DateObject 1000),
              new_Message (js ''msg_1_a'') [] Assistant (DateObject 1001)]"
    by (simp add: example_streaming_def)
  have a1: "(1::nat) < length (messages (chatState example_streaming))"
    and a2: "msg_id (messages (chatState example_streaming) ! 1) = js ''msg_1_a''"
    and a4: "content (messages (chatState example_streaming) ! 1) = []"
    by (simp_all add: m new_Message_def)
  have a3: "\<forall>j<length (messages (chatState example_streaming)). j \<noteq> 1 \<longrightarrow>
              msg_id (messages (chatState example_streaming) ! j) \<noteq> js ''msg_1_a''"
    by (simp add: m new_Message_def less_Suc_eq js_def)
  from C5_chunks_only_extend_the_message_in_flight [OF a1 a2 a3 a4, of "[js ''a'', js ''500'']"]
  have "messages (chatState (snd
          (fold (onChunk (js ''msg_1_a'')) [js ''a'', js ''500''] ([], example_streaming)))) =
        (messages (chatState example_streaming))
          [1 := (messages (chatState example_streaming) ! 1)
                  \<lparr>content := [] @ concat [js ''a'', js ''500'']\<rparr>]"
    by blast
  then show ?thesis
    using a1 a2 a4 by (simp add: m new_Message_def js_append [symmetric])
qed

subsection \<open>The content after an exhausted stream\<close>

lemma concat_emitted:
  "concat (emitted cs) =
     (let text = fst (decode new_TextDecoder (concat cs))
      in text @ (if trim text \<noteq> [] then text else []))"
  by (simp add: emitted_def decode_chunks_concat Let_def)

lemma emitted_Nil_iff: "emitted cs = [] \<longleftrightarrow> cs = []"
  by (cases cs) (simp_all add: emitted_def Let_def trim_Nil split_beta)

text \<open>
  What the message in flight holds once the stream is exhausted: the text that the
  streaming decoder makes of all the bytes, whatever the chunk boundaries, and after it
  the same text once more unless it is blank.
\<close>

lemma content_after_exhausted_stream:
  assumes "trim (inputMessage s) \<noteq> []" "trim (apiKey s) \<noteq> []"
    and "network env (chatRequest s (userMessage env s)) = Inr response"
    and "ok response" "body response = Some reader" "delivers reader cs Done"
  shows "\<exists>s'. handleSendMessage env s = Some s' \<and>
           content (last (messages (chatState s'))) =
             (let text = fst (decode new_TextDecoder (concat cs))
              in text @ (if trim text \<noteq> [] then text else [])) \<and>
           \<not> isLoading (chatState s') \<and> \<not> isTyping (chatState s')"
proof (cases "cs = []")
  case True
  then show ?thesis
    by (simp add: handleSendMessage_exhausted [OF assms] emitted_Nil_iff [THEN iffD2]
        onComplete_def setChatState_def stopLoading_def messages_awaiting
        assistantMessage_def new_Message_def trim_Nil)
next
  case False
  then have "emitted cs \<noteq> []"
    by (simp add: emitted_Nil_iff)
  then show ?thesis
    by (simp add: handleSendMessage_exhausted [OF assms] fold_onChunk onComplete_def
        setChatState_def stopLoading_def setContent_def messages_awaiting last_map
        msg_id_assistantMessage concat_emitted)
qed

lemma flush_a: "fst (flush (new_TextDecoder\<lparr>bom_seen := True\<rparr>)) = []"
  by (simp add: flush_def new_TextDecoder_def)

lemma decode_text_a: "decode_text [0x61] = js ''a''"
  by (simp add: decode_text_def decode_a flush_a del: decode.simps)

text \<open>
  Claim C1, at the response body \<^verbatim>\<open>a\<close> delivered as one chunk: the send completes, and
  the assistant message holds \<^verbatim>\<open>aa\<close>, while the text decoding of the bytes is \<^verbatim>\<open>a\<close>.
\<close>

theorem C1_content_is_doubled:
  "\<exists>s'. handleSendMessage (example_env (Inr (ok_response [[0x61]]))) example_session = Some s' \<and>
        content (last (messages (chatState s'))) = js ''aa'' \<and>
        decode_text (concat [[0x61]]) = js ''a'' \<and>
        \<not> isLoading (chatState s') \<and> \<not> isTyping (chatState s')"
proof -
  have n: "network (example_env (Inr (ok_response [[0x61]])))
             (chatRequest example_session
                (userMessage (example_env (Inr (ok_response [[0x61]]))) example_session)) =
           Inr (ok_response [[0x61]])"
    by (simp add: example_env_def)
  have o: "ok (ok_response [[0x61]])"
    and b: "body (ok_response [[0x61]]) = Some (stream_of [[0x61]])"
    by (simp_all add: ok_response_def)
  have e: "js ''a'' @ js ''a'' = js ''aa''" and ne: "js ''a'' \<noteq> []"
    by (simp_all add: js_def)
  from content_after_exhausted_stream [OF example_guard n o b delivers_stream_of]
  show ?thesis
    by (simp add: decode_a trim_a decode_text_a e ne Let_def del: decode.simps)
qed

lemma decode_C3:
  "decode new_TextDecoder [0xC3] =
     ([], new_TextDecoder\<lparr>code_point := 3, bytes_needed := 1\<rparr>)"
  by (simp add: new_TextDecoder_def decode_byte_def utf8_handler_def utf8_lead_def)

lemma flush_C3:
  "fst (flush (new_TextDecoder\<lparr>code_point := 3, bytes_needed := 1\<rparr>)) = [0xFFFD]"
  by (simp add: flush_def new_TextDecoder_def utf16_def)

lemma flush_after_C3: "fst (flush (snd (decode new_TextDecoder [0xC3]))) = [0xFFFD]"
  unfolding decode_C3 snd_conv by (rule flush_C3)

lemma flush_after_a: "fst (flush (snd (decode new_TextDecoder [0x61]))) = []"
  unfolding decode_a snd_conv by (rule flush_a)

lemma emitted_C3: "emitted [[0xC3]] = [[]]"
  by (simp add: emitted_def decode_C3 trim_Nil Let_def del: decode.simps)

text \<open>
  Claim C2, at the same body: when the reader reports exhaustion the decoder holds no
  pending byte (its flush is empty), yet \<^verbatim>\<open>onChunk\<close> is called once more, with the whole
  buffer \<^verbatim>\<open>a\<close>, before \<^verbatim>\<open>onComplete\<close>. And at the body \<^verbatim>\<open>0xC3\<close>, which ends inside a
  character: the decoder's flush is U+FFFD, and at exhaustion nothing is emitted.
\<close>

theorem C2_exhaustion_emits_the_buffer:
  "(\<exists>st. logged_sendMessage (\<lambda>request n. (Inr (ok_response [[0x61]]), n)) example_request
           (\<lambda>ch (n::nat). Returned n) Returned (\<lambda>e n. Returned n) 0 =
         Some (Returned (st, [ChunkCalled (js ''a''), ChunkCalled (js ''a''), CompleteCalled]))) \<and>
   fst (flush (snd (decode new_TextDecoder [0x61]))) = [] \<and>
   (\<exists>st. logged_sendMessage (\<lambda>request n. (Inr (ok_response [[0xC3]]), n)) example_request
           (\<lambda>ch (n::nat). Returned n) Returned (\<lambda>e n. Returned n) 0 =
         Some (Returned (st, [ChunkCalled [], CompleteCalled]))) \<and>
   fst (flush (snd (decode new_TextDecoder [0xC3]))) = [0xFFFD]"
proof -
  have f: "logged_fetch (\<lambda>request (n::nat). (Inr (ok_response cs), n)) example_request (0, []) =
           (Inr (ok_response cs), (0, []))" for cs
    by (simp add: logged_fetch_def)
  have o: "ok (ok_response cs)" and b: "body (ok_response cs) = Some (stream_of cs)" for cs
    by (simp_all add: ok_response_def)
  have c: "fold (\<lambda>c n. n) xs (0::nat) = 0" for xs :: "jsstring list"
    by (induction xs) simp_all
  have run: "logged_sendMessage (\<lambda>request n. (Inr (ok_response cs), n)) example_request
           (\<lambda>ch (n::nat). Returned n) Returned (\<lambda>e n. Returned n) 0 =
         Some (Returned (0, map ChunkCalled (emitted cs) @ [CompleteCalled]))" for cs
    unfolding logged_sendMessage_def
    by (simp add: logged_Returned
        sendMessage_exhausted
          [where f = "logged_fetch (\<lambda>request (n::nat). (Inr (ok_response cs), n))"
             and s = "(0, [])", OF f o b delivers_stream_of]
        fold_logged [where g = "\<lambda>c n. n"] c)
  show ?thesis
    by (simp add: run emitted_a emitted_C3 flush_after_a flush_after_C3 del: decode.simps)
qed

subsection \<open>The message in flight at the start of a send\<close>

text \<open>
  When the id generated for the assistant message is fresh, the state in which the send
  waits for the network is one in which chunks extend exactly that message: it is the
  last of the sequence, the only one with its id, and its content is the (empty)
  accumulated text.
\<close>

lemma awaiting_in_flight:
  assumes "assistantMessageId env \<notin> msg_id ` set (messages (chatState s))"
    and "assistantMessageId env \<noteq> userMessageId env"
  shows "Suc (length (messages (chatState s))) < length (messages (chatState (awaiting env s))) \<and>
         msg_id (messages (chatState (awaiting env s)) ! Suc (length (messages (chatState s)))) =
           assistantMessageId env \<and>
         (\<forall>j<length (messages (chatState (awaiting env s))).
            j \<noteq> Suc (length (messages (chatState s))) \<longrightarrow>
            msg_id (messages (chatState (awaiting env s)) ! j) \<noteq> assistantMessageId env) \<and>
         content (messages (chatState (awaiting env s)) ! Suc (length (messages (chatState s)))) = []"
proof -
  let ?old = "messages (chatState s)"
  have m: "messages (chatState (awaiting env s)) = ?old @ [userMessage env s, assistantMessage env]"
    by (rule messages_awaiting)
  have u: "msg_id (userMessage env s) = userMessageId env"
    by (simp add: userMessage_def new_Message_def)
  have a: "msg_id (assistantMessage env) = assistantMessageId env"
    "content (assistantMessage env) = []"
    by (simp_all add: assistantMessage_def new_Message_def)
  have other: "msg_id ((?old @ [userMessage env s, assistantMessage env]) ! j) \<noteq>
                 assistantMessageId env"
    if "j < length ?old + 2" "j \<noteq> Suc (length ?old)" for j
  proof (cases "j < length ?old")
    case True
    then have "msg_id (?old ! j) \<in> msg_id ` set ?old" by simp
    with assms(1) have "msg_id (?old ! j) \<noteq> assistantMessageId env" by metis
    with True show ?thesis by (simp add: nth_append)
  next
    case False
    with that have "j = length ?old" by simp
    with assms(2) u show ?thesis by (simp add: nth_append)
  qed
  show ?thesis
    unfolding m using other a by (simp add: nth_append)
qed

subsection \<open>A character split between two chunks\<close>

lemma decode_after_C3:
  "decode (new_TextDecoder\<lparr>code_point := 3, bytes_needed := 1\<rparr>) [0xA9] =
     ([0xE9], new_TextDecoder\<lparr>bom_seen := True\<rparr>)"
  by (simp add: new_TextDecoder_def decode_byte_def utf8_handler_def utf8_lead_def utf16_def)

text \<open>
  The two bytes of U+00E9, one per chunk: the first chunk decodes to the empty string,
  the second to the character, as the one-shot decoding of both bytes does; and the run
  hands \<^verbatim>\<open>onChunk\<close> the empty string, the character, and then the buffer once more.
\<close>

lemma split_character:
  "decode_chunks new_TextDecoder [[0xC3], [0xA9]] =
     ([[], [0xE9]], new_TextDecoder\<lparr>bom_seen := True\<rparr>)"
  "emitted [[0xC3], [0xA9]] = [[], [0xE9], [0xE9]]"
proof -
  show d: "decode_chunks new_TextDecoder [[0xC3], [0xA9]] =
     ([[], [0xE9]], new_TextDecoder\<lparr>bom_seen := True\<rparr>)"
    by (simp only: decode_chunks.simps decode_C3 decode_after_C3 Let_def prod.case)
  have t: "trim [0xE9] \<noteq> []"
    by (simp add: trim_def isWhiteSpace_def)
  show "emitted [[0xC3], [0xA9]] = [[], [0xE9], [0xE9]]"
    by (simp add: emitted_def d t Let_def del: decode_chunks.simps)
qed

lemma decode_text_split_character: "decode_text (concat [[0xC3], [0xA9]]) = [0xE9]"
proof -
  have "decode new_TextDecoder (concat [[0xC3], [0xA9]]) =
          ([0xE9], new_TextDecoder\<lparr>bom_seen := True\<rparr>)"
    unfolding decode_chunks_concat split_character(1) by simp
  then show ?thesis
    by (simp add: decode_text_def flush_a del: decode.simps)
qed

subsection \<open>Which runs settle\<close>

lemma read_loop_Some_ends:
  assumes "read_loop reader oc fin n d buf s = Some y"
  shows "(\<forall>c st. \<exists>st'. oc c st = Returned st') \<longrightarrow> (\<exists>m\<ge>n. \<forall>v. reader m \<noteq> Value v)"
proof (rule read_loop.raw_induct
    [where P = "\<lambda>reader oc fin n d buf s y.
       (\<forall>c st. \<exists>st'. oc c st = Returned st') \<longrightarrow> (\<exists>m\<ge>n. \<forall>v. reader m \<noteq> Value v)",
     OF _ assms], goal_cases)
  case (1 loop reader oc fin n d buf s y)
  show ?case
  proof
    assume nothrow: "\<forall>c st. \<exists>st'. oc c st = Returned st'"
    show "\<exists>m\<ge>n. \<forall>v. reader m \<noteq> Value v"
    proof (cases "reader n")
      case Done
      then have "\<forall>v. reader n \<noteq> Value v" by simp
      then show ?thesis by blast
    next
      case (ReadRejected e)
      then have "\<forall>v. reader n \<noteq> Value v" by simp
      then show ?thesis by blast
    next
      case (Value v)
      obtain chunk d' where dec: "decode d v = (chunk, d')" by (cases "decode d v")
      from nothrow obtain s' where cb: "oc chunk s = Returned s'" by blast
      from 1(2) Value dec cb
      have "loop reader oc fin (n + 1) d' (buf @ chunk) s' = Some y" by simp
      from 1(1) [OF this] nothrow obtain m where "n + 1 \<le> m" "\<forall>v. reader m \<noteq> Value v"
        by blast
      then have "n \<le> m \<and> (\<forall>v. reader m \<noteq> Value v)" by simp
      then show ?thesis by blast
    qed
  qed
qed

lemma ends_delivers:
  assumes "\<forall>v. reader m \<noteq> Value v"
  shows "\<exists>cs final. delivers reader cs final \<and> (\<forall>v. final \<noteq> Value v)"
proof -
  define n where "n = (LEAST k. \<forall>v. reader k \<noteq> Value v)"
  define cs where "cs = map (\<lambda>k. case reader k of Value v \<Rightarrow> v | _ \<Rightarrow> []) [0..<n]"
  have fin: "\<forall>v. reader n \<noteq> Value v"
    unfolding n_def using assms by (rule LeastI)
  have "reader k = Value (cs ! k)" if "k < n" for k
  proof -
    from that have "\<not> (\<forall>v. reader k \<noteq> Value v)"
      unfolding n_def by (rule not_less_Least)
    then obtain v where "reader k = Value v" by blast
    with that show ?thesis by (simp add: cs_def)
  qed
  then have "map reader [0..<length cs] = map Value cs"
    by (intro nth_equalityI) (simp_all add: cs_def)
  moreover have "length cs = n" by (simp add: cs_def)
  ultimately have "delivers reader cs (reader n)"
    by (simp add: delivers_def)
  with fin show ?thesis by blast
qed

text \<open>
  With callbacks that return, a run of \<^verbatim>\<open>sendMessage\<close> settles exactly when its
  exchange takes one of the courses: the only run that never settles is the one whose
  stream delivers chunk after chunk for ever.
\<close>

lemma settles_iff_takes_course:
  "sendMessage f request (\<lambda>ch st. Returned (oc ch st)) (\<lambda>st. Returned (fin st))
     (\<lambda>e st. Returned (oe e st)) s \<noteq> None \<longleftrightarrow>
   (\<exists>c. takes_course (fst (f request s)) c)"
proof
  assume "\<exists>c. takes_course (fst (f request s)) c"
  then obtain c where c: "takes_course (fst (f request s)) c" ..
  have f: "f request s = (fst (f request s), snd (f request s))" by simp
  show "sendMessage f request (\<lambda>ch st. Returned (oc ch st)) (\<lambda>st. Returned (fin st))
          (\<lambda>e st. Returned (oe e st)) s \<noteq> None"
    by (simp add: sendMessage_course [where f = f and request = request and s = s, OF f c])
next
  assume settles: "sendMessage f request (\<lambda>ch st. Returned (oc ch st)) (\<lambda>st. Returned (fin st))
          (\<lambda>e st. Returned (oe e st)) s \<noteq> None"
  obtain answer s1 where f: "f request s = (answer, s1)" by (cases "f request s")
  show "\<exists>c. takes_course (fst (f request s)) c"
  proof (cases answer)
    case (Inl e)
    then have "takes_course answer (FetchFailed e)" by (simp add: takes_course_def)
    with f show ?thesis by auto
  next
    case (Inr response)
    show ?thesis
    proof (cases "ok response")
      case False
      with Inr have "takes_course answer BadStatus" by (simp add: takes_course_def)
      with f show ?thesis by auto
    next
      case True
      show ?thesis
      proof (cases "body response")
        case None
        with True Inr have "takes_course answer NoBody" by (simp add: takes_course_def)
        with f show ?thesis by auto
      next
        case (Some reader)
        from settles f Inr True Some
        obtain y where "read_loop reader (\<lambda>ch st. Returned (oc ch st))
            (\<lambda>st. Returned (fin st)) 0 new_TextDecoder [] s1 = Some y"
          by (auto simp: sendMessage_def split: option.splits)
        from read_loop_Some_ends [OF this] obtain m where "\<forall>v. reader m \<noteq> Value v"
          by auto
        from ends_delivers [where reader = reader and m = m, OF this] obtain cs final
          where d: "delivers reader cs final" and nv: "\<forall>v. final \<noteq> Value v"
          by blast
        show ?thesis
        proof (cases final)
          case Done
          with d True Some Inr have "takes_course answer (Exhausted cs)"
            by (simp add: takes_course_def)
          with f show ?thesis by auto
        next
          case (Value v)
          with nv show ?thesis by simp
        next
          case (ReadRejected e)
          with d True Some Inr have "takes_course answer (ReadFailed cs e)"
            by (simp add: takes_course_def)
          with f show ?thesis by auto
        qed
      qed
    qed
  qed
qed

lemma endless_stream_never_settles:
  assumes "f request s = (Inr response, s1)" "ok response" "body response = Some reader"
    and "\<forall>n. \<exists>v. reader n = Value v"
  shows "sendMessage f request (\<lambda>ch st. Returned (oc ch st)) (\<lambda>st. Returned (fin st))
           (\<lambda>e st. Returned (oe e st)) s = None"
proof (rule ccontr)
  assume "sendMessage f request (\<lambda>ch st. Returned (oc ch st)) (\<lambda>st. Returned (fin st))
            (\<lambda>e st. Returned (oe e st)) s \<noteq> None"
  from settles_iff_takes_course [THEN iffD1, OF this] assms(1)
  obtain c where "takes_course (Inr response) c"
    by auto
  with assms(2,3) obtain cs final where "delivers reader cs final" "\<forall>v. final \<noteq> Value v"
    by (auto simp: takes_course_def split: course.splits)
  then have "\<forall>v. reader (length cs) \<noteq> Value v"
    by (simp add: delivers_def)
  with assms(4) show False
    by blast
qed

subsection \<open>The two flags\<close>

lemma flags_beginSend:
  "isLoading (chatState (beginSend env s)) \<and> isTyping (chatState (beginSend env s))"
  by (simp add: beginSend_def setChatState_def addUserMessage_def addAssistantMessage_def
      Let_def)

lemma flags_onComplete:
  "\<not> isLoading (chatState (snd (onComplete (ac, s)))) \<and>
   \<not> isTyping (chatState (snd (onComplete (ac, s))))"
  by (simp add: onComplete_def setChatState_def stopLoading_def)

lemma flags_onError:
  "\<not> isLoading (chatState (snd (onError aid e (ac, s)))) \<and>
   \<not> isTyping (chatState (snd (onError aid e (ac, s))))"
  by (simp add: onError_def setChatState_def setError_def)

lemma flags_caught:
  "\<not> isLoading (chatState (setChatState (setError aid e) s)) \<and>
   \<not> isTyping (chatState (setChatState (setError aid e) s))"
  by (simp add: setChatState_def setError_def)

lemma flags_onChunk:
  "isLoading (chatState (snd (onChunk aid c (ac, s)))) = isLoading (chatState s) \<and>
   isTyping (chatState (snd (onChunk aid c (ac, s)))) = isTyping (chatState s)"
  by (simp add: onChunk_def setChatState_def setContent_def)

lemma flags_mount:
  "isLoading (chatState (mount p ls s)) = isLoading (chatState s) \<and>
   isTyping (chatState (mount p ls s)) = isTyping (chatState s)"
  by (simp add: mount_def Let_def setChatState_def loadSaved_def split: option.split)

lemma flags_clearChatHistory:
  "isLoading (chatState (fst (clearChatHistory (s, ls)))) = isLoading (chatState s) \<and>
   isTyping (chatState (fst (clearChatHistory (s, ls)))) = isTyping (chatState s)"
  by (simp add: clearChatHistory_def setChatState_def clearMessages_def)

lemma reachable_flags:
  "reachable k s \<Longrightarrow>
   isLoading (chatState s) = isTyping (chatState s) \<and> (isLoading (chatState s) \<longrightarrow> 0 < k)"
proof (induction rule: reachable.induct)
  case initial
  then show ?case by (simp add: initial_Session_def initial_ChatState_def)
next
  case (mounted k s p ls)
  then show ?case by (simp add: flags_mount)
next
  case (edited k s s')
  then show ?case by simp
next
  case (send_begun k s env)
  then show ?case by (simp add: flags_beginSend)
next
  case (chunk_applied k s aid chunk ac)
  then show ?case by (simp add: flags_onChunk)
next
  case (completed k s ac)
  then show ?case by (simp add: flags_onComplete)
next
  case (errored k s aid e ac)
  then show ?case by (simp add: flags_onError)
next
  case (caught k s aid e)
  then show ?case by (simp add: flags_caught)
next
  case (cleared k s ls)
  then show ?case by (simp add: flags_clearChatHistory)
qed

subsection \<open>A send moves between reachable states\<close>

lemma chatState_awaiting: "chatState (awaiting env s) = chatState (beginSend env s)"
  by (simp add: awaiting_def)

lemma reachable_fold_onChunk:
  assumes "reachable (Suc k) s"
  shows "reachable (Suc k) (snd (fold (onChunk aid) outs (ac, s)))"
  using assms
proof (induction outs arbitrary: ac s)
  case Nil
  then show ?case by simp
next
  case (Cons c outs)
  have "reachable (Suc k) (snd (onChunk aid c (ac, s)))"
    using Cons.prems by (rule reachable.chunk_applied)
  from Cons.IH [OF this, of "ac @ c"] show ?case
    by (simp add: onChunk_apply)
qed

lemma handleSendMessage_reachable:
  assumes "reachable k s" and "handleSendMessage env s = Some s'"
  shows "reachable k s' \<and>
         (if trim (inputMessage s) = [] \<or> trim (apiKey s) = [] then chatState s' = chatState s
          else \<not> isLoading (chatState s') \<and> \<not> isTyping (chatState s'))"
proof (cases "trim (inputMessage s) = [] \<or> trim (apiKey s) = []")
  case True
  with assms(2) have c: "chatState s' = chatState s"
    by (auto simp: handleSendMessage_def split: if_splits)
  with assms(1) have "reachable k s'" by (rule reachable.edited)
  with c True show ?thesis by simp
next
  case False
  let ?run = "sendMessage (fetch (network env)) (chatRequest s (userMessage env s))
                (\<lambda>chunk st. Returned (onChunk (assistantMessageId env) chunk st))
                (\<lambda>st. Returned (onComplete st))
                (\<lambda>error st. Returned (onError (assistantMessageId env) error st))
                ([], beginSend env s)"
  let ?answer = "network env (chatRequest s (userMessage env s))"
  from False assms(2) have "?run \<noteq> None"
    by (auto simp: handleSendMessage_def split: option.splits)
  from settles_iff_takes_course [THEN iffD1, OF this]
  obtain c where c: "takes_course ?answer c"
    by (auto simp: fetch_awaiting)
  have f: "fetch (network env) (chatRequest s (userMessage env s)) ([], beginSend env s) =
           (?answer, ([], awaiting env s))"
    by (rule fetch_awaiting)
  from False assms(1) have "reachable (Suc k) (beginSend env s)"
    by (intro reachable.send_begun) simp_all
  then have "reachable (Suc k) (awaiting env s)"
    by (rule reachable.edited) (rule chatState_awaiting)
  then have r: "reachable (Suc k)
      (snd (fold (onChunk (assistantMessageId env)) (chunk_calls c) ([], awaiting env s)))"
    by (rule reachable_fold_onChunk)
  obtain ac s2 where m: "fold (onChunk (assistantMessageId env)) (chunk_calls c)
      ([], awaiting env s) = (ac, s2)"
    by (cases "fold (onChunk (assistantMessageId env)) (chunk_calls c) ([], awaiting env s)")
  with r have r2: "reachable (Suc k) s2" by simp
  have t: "terminal_call ?answer c = CompleteCalled \<or> (\<exists>e. terminal_call ?answer c = ErrorCalled e)"
    by (simp add: terminal_call_def split: course.split)
  from False assms(2)
  have "s' = snd (case terminal_call ?answer c of
                    CompleteCalled \<Rightarrow>
                      onComplete (fold (onChunk (assistantMessageId env)) (chunk_calls c)
                                    ([], awaiting env s))
                  | ErrorCalled e \<Rightarrow>
                      onError (assistantMessageId env) e
                        (fold (onChunk (assistantMessageId env)) (chunk_calls c)
                           ([], awaiting env s))
                  | ChunkCalled ch \<Rightarrow> ([], awaiting env s))"
    by (simp add: handleSendMessage_def
        sendMessage_course
          [where f = "fetch (network env)" and s = "([], beginSend env s)", OF f c]
        split: prod.splits)
  then have s': "s' = snd (case terminal_call ?answer c of
                    CompleteCalled \<Rightarrow> onComplete (ac, s2)
                  | ErrorCalled e \<Rightarrow> onError (assistantMessageId env) e (ac, s2)
                  | ChunkCalled ch \<Rightarrow> ([], awaiting env s))"
    unfolding m .
  from t show ?thesis
  proof
    assume "terminal_call ?answer c = CompleteCalled"
    with s' have "s' = snd (onComplete (ac, s2))" by simp
    with reachable.completed [OF r2, of ac] flags_onComplete [of ac s2] False
    show ?thesis by simp
  next
    assume "\<exists>e. terminal_call ?answer c = ErrorCalled e"
    then obtain e where "terminal_call ?answer c = ErrorCalled e" ..
    with s' have "s' = snd (onError (assistantMessageId env) e (ac, s2))" by simp
    with reachable.errored [OF r2, of "assistantMessageId env" e ac]
      flags_onError [of "assistantMessageId env" e ac s2] False
    show ?thesis by simp
  qed
qed

text \<open>
  Claim C6. In every reachable state of the component the two flags are equal, and they
  are up only while a send is in flight. The synchronous part of a send that passed the
  guard (\<open>beginSend\<close>) raises both; \<^verbatim>\<open>onComplete\<close>, \<^verbatim>\<open>onError\<close> and the \<^verbatim>\<open>catch\<close> of
  \<^verbatim>\<open>handleSendMessage\<close> lower both; \<^verbatim>\<open>onChunk\<close>, the mount effect and
  \<^verbatim>\<open>clearChatHistory\<close> touch neither. A whole \<^verbatim>\<open>handleSendMessage\<close> that settles ends
  in a reachable state with as many sends in flight as before: with the chat state as it
  was when the guard stopped it, and with both flags down otherwise.
\<close>

theorem C6_flags_move_together:
  assumes "reachable k s"
  shows "isLoading (chatState s) = isTyping (chatState s) \<and>
         (isLoading (chatState s) \<longrightarrow> 0 < k) \<and>
         (isLoading (chatState (beginSend env s)) \<and> isTyping (chatState (beginSend env s))) \<and>
         (\<not> isLoading (chatState (snd (onComplete (ac, s)))) \<and>
          \<not> isTyping (chatState (snd (onComplete (ac, s))))) \<and>
         (\<not> isLoading (chatState (snd (onError aid e (ac, s)))) \<and>
          \<not> isTyping (chatState (snd (onError aid e (ac, s))))) \<and>
         (\<not> isLoading (chatState (setChatState (setError aid e) s)) \<and>
          \<not> isTyping (chatState (setChatState (setError aid e) s))) \<and>
         (isLoading (chatState (snd (onChunk aid c (ac, s)))) = isLoading (chatState s) \<and>
          isTyping (chatState (snd (onChunk aid c (ac, s)))) = isTyping (chatState s)) \<and>
         (isLoading (chatState (mount p ls s)) = isLoading (chatState s) \<and>
          isTyping (chatState (mount p ls s)) = isTyping (chatState s)) \<and>
         (isLoading (chatState (fst (clearChatHistory (s, ls)))) = isLoading (chatState s) \<and>
          isTyping (chatState (fst (clearChatHistory (s, ls)))) = isTyping (chatState s)) \<and>
         (\<forall>s'. handleSendMessage env s = Some s' \<longrightarrow>
            reachable k s' \<and>
            isLoading (chatState s') = isTyping (chatState s') \<and>
            (isLoading (chatState s') \<longrightarrow> 0 < k) \<and>
            (if trim (inputMessage s) = [] \<or> trim (apiKey s) = []
             then chatState s' = chatState s
             else \<not> isLoading (chatState s') \<and> \<not> isTyping (chatState s')))"
proof -
  have whole: "reachable k s' \<and>
            isLoading (chatState s') = isTyping (chatState s') \<and>
            (isLoading (chatState s') \<longrightarrow> 0 < k) \<and>
            (if trim (inputMessage s) = [] \<or> trim (apiKey s) = []
             then chatState s' = chatState s
             else \<not> isLoading (chatState s') \<and> \<not> isTyping (chatState s'))"
    if "handleSendMessage env s = Some s'" for s'
    using handleSendMessage_reachable [OF assms that]
      reachable_flags [of k s'] by blast
  show ?thesis
    using reachable_flags [OF assms] flags_beginSend [of env s] flags_onComplete [of ac s]
      flags_onError [of aid e ac s] flags_caught [of aid e s] flags_onChunk [of aid c ac s]
      flags_mount [of p ls s] flags_clearChatHistory [of s ls] whole
    by blast
qed


theorem C6_witness:
  "reachable 0 example_session \<and>
   reachable 1 (beginSend (example_env (Inr (ok_response [[0x61]]))) example_session) \<and>
   isLoading (chatState (beginSend (example_env (Inr (ok_response [[0x61]]))) example_session)) \<and>
   isTyping (chatState (beginSend (example_env (Inr (ok_response [[0x61]]))) example_session)) \<and>
   \<not> isLoading (chatState (snd (onComplete
       ([], beginSend (example_env (Inr (ok_response [[0x61]]))) example_session)))) \<and>
   \<not> isTyping (chatState (snd (onComplete
       ([], beginSend (example_env (Inr (ok_response [[0x61]]))) example_session)))) \<and>
   (\<exists>s'. handleSendMessage (example_env (Inr (ok_response [[0x61]]))) example_session = Some s' \<and>
      reachable 0 s' \<and> \<not> isLoading (chatState s') \<and> \<not> isTyping (chatState s'))"
proof -
  let ?env = "example_env (Inr (ok_response [[0x61]]))"
  have "chatState example_session = chatState initial_Session"
    by (simp add: example_session_def)
  with reachable.initial have r0: "reachable 0 example_session"
    by (rule reachable.edited)
  from r0 example_guard have "reachable (Suc 0) (beginSend ?env example_session)"
    by (rule reachable.send_begun)
  then have r1: "reachable 1 (beginSend ?env example_session)"
    by simp
  have n: "network ?env (chatRequest example_session (userMessage ?env example_session)) =
           Inr (ok_response [[0x61]])"
    by (simp add: example_env_def)
  have o: "ok (ok_response [[0x61]])"
    and b: "body (ok_response [[0x61]]) = Some (stream_of [[0x61]])"
    by (simp_all add: ok_response_def)
  from content_after_exhausted_stream [OF example_guard n o b delivers_stream_of]
  obtain s' where h: "handleSendMessage ?env example_session = Some s'"
    by blast
  from C6_flags_move_together [OF r0, of ?env] h example_guard
  have begun: "isLoading (chatState (beginSend ?env example_session)) \<and>
               isTyping (chatState (beginSend ?env example_session))"
    and whole: "reachable 0 s' \<and> \<not> isLoading (chatState s') \<and> \<not> isTyping (chatState s')"
    by simp_all
  from C6_flags_move_together [OF r1, of ?env "[]"]
  have ended: "\<not> isLoading (chatState (snd (onComplete ([], beginSend ?env example_session)))) \<and>
               \<not> isTyping (chatState (snd (onComplete ([], beginSend ?env example_session))))"
    by blast
  from r0 r1 begun ended h whole show ?thesis
    by blast
qed

subsection \<open>Clearing the history\<close>

lemma getItem_removeItem: "getItem (removeItem ls k) k = None"
  by (simp add: getItem_def removeItem_def map_of_eq_None_iff image_iff)

lemma window_removeItem: "window_defined (removeItem ls k) = window_defined ls"
  by (simp add: removeItem_def)

lemma getChatHistory_cleared: "getChatHistory p (storage_clearChatHistory ls) = []"
  by (cases "window_defined ls")
    (simp_all add: getChatHistory_def storage_clearChatHistory_def getItem_removeItem
      window_removeItem)

lemma messages_mount_empty:
  "getChatHistory p ls = [] \<Longrightarrow> messages (chatState (mount p ls s)) = messages (chatState s)"
  by (simp add: mount_def Let_def split: option.split)

text \<open>
  Claim C9. After \<^verbatim>\<open>clearChatHistory\<close> the message sequence in memory is empty and, in
  a browser, the store holds no item under the history's key; the effect that saves the
  messages, run on the new state, writes nothing; so the next page load reads an empty
  history and starts with zero messages.
\<close>

theorem C9_clear_history:
  "messages (chatState (fst (clearChatHistory (s, ls)))) = [] \<and>
   (window_defined ls \<longrightarrow> getItem (snd (clearChatHistory (s, ls))) chat_history_key = None) \<and>
   saveEffect p (fst (clearChatHistory (s, ls))) (snd (clearChatHistory (s, ls))) =
     snd (clearChatHistory (s, ls)) \<and>
   getChatHistory p (snd (clearChatHistory (s, ls))) = [] \<and>
   messages (chatState (mount p (snd (clearChatHistory (s, ls))) initial_Session)) = []"
  by (simp add: clearChatHistory_def setChatState_def clearMessages_def saveEffect_def
      getChatHistory_cleared messages_mount_empty initial_Session_def initial_ChatState_def)
    (simp add: storage_clearChatHistory_def getItem_removeItem)

theorem C9_witness:
  "window_defined example_storage \<and>
   getItem example_storage chat_history_key = Some (js ''[]'') \<and>
   messages (chatState example_streaming) \<noteq> [] \<and>
   messages (chatState (fst (clearChatHistory (example_streaming, example_storage)))) = [] \<and>
   getItem (snd (clearChatHistory (example_streaming, example_storage))) chat_history_key = None \<and>
   messages (chatState (mount example_platform
      (snd (clearChatHistory (example_streaming, example_storage))) initial_Session)) = []"
proof -
  have w: "window_defined example_storage"
    by (simp add: example_storage_def)
  have g: "getItem example_storage chat_history_key = Some (js ''[]'')"
    by (simp add: example_storage_def getItem_def chat_history_key_def js_def)
  have m: "messages (chatState example_streaming) \<noteq> []"
    by (simp add: example_streaming_def)
  from C9_clear_history [of example_streaming example_storage example_platform] w g m
  show ?thesis
    by simp
qed

subsection \<open>A message through JSON and back\<close>

lemma of_char_word_inject:
  "(of_nat (of_char c) :: 16 word) = of_nat (of_char d) \<longleftrightarrow> c = d"
proof
  assume "(of_nat (of_char c) :: 16 word) = of_nat (of_char d)"
  then have "unat (of_nat (of_char c) :: 16 word) = unat (of_nat (of_char d) :: 16 word)"
    by simp
  moreover have "(of_char e :: nat) < 2 ^ 16" for e
    by (rule less_trans [OF nat_of_char_less_256]) simp
  ultimately have "(of_char c :: nat) = of_char d"
    by (simp add: unat_of_nat)
  then show "c = d" by simp
qed simp

lemma js_inject [simp]: "js a = js b \<longleftrightarrow> a = b"
proof -
  have "inj (\<lambda>c. of_nat (of_char c) :: 16 word)"
    by (rule injI) (simp add: of_char_word_inject)
  then show ?thesis
    unfolding js_def by (rule inj_map_eq_map)
qed


lemma property_JObject: "property (JObject kvs) k = map_of kvs (js k)"
  by (simp add: property_def)

lemma map_of_optional:
  "map_of (optional k enc v @ rest) (js k') =
     (if k' = k then (case v of None \<Rightarrow> map_of rest (js k') | Some x \<Rightarrow> Some (enc x))
      else map_of rest (js k'))"
  by (simp add: optional_def split: option.split)

lemma map_of_optional_end:
  "map_of (optional k enc v) (js k') = (if k' = k then map_option enc v else None)"
  by (simp add: optional_def split: option.split)

lemma strings_of_JArray: "strings_of (Some (JArray (map JString xs))) = xs"
  by (simp add: strings_of_def string_of_def comp_def)

lemma Question_of_json [simp]: "Question_of (json_of_Question q) = q"
  by (simp add: Question_of_def json_of_Question_def property_JObject string_of_def
      strings_of_JArray number_of_def)

lemma map_Question_of_json: "map Question_of (map json_of_Question qs) = qs"
  by (simp add: comp_def)

lemma Role_of_json: "Role_of (Some (json_of_Role r)) = r"
  by (cases r) (simp_all add: Role_of_def json_of_Role_def)

lemma Message_of_json:
  "Message_of (json_of_Message p m) =
     m\<lparr>timestamp := timestamp_of (Some (json_of_timestamp p (timestamp m)))\<rparr>"
proof -
  let ?j = "json_of_Message p m"
  have 1: "property ?j ''id'' = Some (JString (msg_id m))"
    and 2: "property ?j ''content'' = Some (JString (content m))"
    and 3: "property ?j ''role'' = Some (json_of_Role (role m))"
    and 4: "property ?j ''timestamp'' = Some (json_of_timestamp p (timestamp m))"
    by (simp_all add: json_of_Message_def property_JObject)
  have 5: "property ?j ''questions'' =
             map_option (\<lambda>qs. JArray (map json_of_Question qs)) (questions m)"
    and 6: "property ?j ''topic'' = map_option JString (topic m)"
    and 7: "property ?j ''difficulty'' = map_option JString (difficulty m)"
    and 8: "property ?j ''question_types'' =
             map_option (\<lambda>ts. JArray (map JString ts)) (question_types m)"
    and 9: "property ?j ''has_context'' = map_option JBool (has_context m)"
    and 10: "property ?j ''context_chunks_used'' = map_option JNumber (context_chunks_used m)"
    by (simp_all add: json_of_Message_def property_JObject map_add_def map_of_optional_end
        split: option.split)
  have q: "(case map_option (\<lambda>qs. JArray (map json_of_Question qs)) (questions m) of
              Some (JArray qs) \<Rightarrow> Some (map Question_of qs) | _ \<Rightarrow> None) = questions m"
    by (cases "questions m") (simp_all add: comp_def)
  have t: "(case map_option JString x of Some (JString str) \<Rightarrow> Some str | _ \<Rightarrow> None) = x"
    for x
    by (cases x) simp_all
  have qt: "(case map_option (\<lambda>ts. JArray (map JString ts)) (question_types m) of
               Some (JArray ts) \<Rightarrow> Some (strings_of (Some (JArray ts))) | _ \<Rightarrow> None) =
            question_types m"
    by (cases "question_types m") (simp_all add: strings_of_JArray)
  have h: "(case map_option JBool (has_context m) of Some (JBool b) \<Rightarrow> Some b | _ \<Rightarrow> None) =
           has_context m"
    by (cases "has_context m") simp_all
  have c: "(case map_option JNumber (context_chunks_used m) of
              Some (JNumber n) \<Rightarrow> Some n | _ \<Rightarrow> None) = context_chunks_used m"
    by (cases "context_chunks_used m") simp_all
  show ?thesis
    unfolding Message_of_def 1 2 3 4 5 6 7 8 9 10 q t qt h c
    by (simp add: string_of_def Role_of_json)
qed

lemma Messages_of_json:
  "Messages_of (JArray (map (json_of_Message p) msgs)) =
     map (\<lambda>m. m\<lparr>timestamp := timestamp_of (Some (json_of_timestamp p (timestamp m)))\<rparr>) msgs"
  by (simp add: Messages_of_def Message_of_json comp_def)

subsection \<open>Saving and loading the history\<close>

lemma getItem_setItem:
  "setItem ls k v = Inr ls' \<Longrightarrow> getItem ls' k = Some v \<and> window_defined ls' = window_defined ls"
  by (auto simp: setItem_def getItem_def Let_def split: if_splits)

lemma coerce_serialised:
  assumes "\<forall>m\<in>set msgs. \<exists>ms. timestamp m = DateObject ms \<and> Date_parse p (toISOString p ms) = Some ms"
  shows "map (\<lambda>msg. msg\<lparr>timestamp := new_Date p (timestamp msg)\<rparr>)
           (map (\<lambda>m. m\<lparr>timestamp := timestamp_of (Some (json_of_timestamp p (timestamp m)))\<rparr>)
              msgs) = msgs"
  using assms
proof (induction msgs)
  case Nil
  then show ?case by simp
next
  case (Cons m msgs)
  then obtain ms where "timestamp m = DateObject ms" "Date_parse p (toISOString p ms) = Some ms"
    by auto
  then have "m\<lparr>timestamp := new_Date p (timestamp_of (Some (json_of_timestamp p (timestamp m))))\<rparr>
             = m"
    by (simp add: new_Date_def timestamp_of_def json_of_timestamp_def)
  with Cons show ?case by simp
qed

text \<open>
  Claim C8. In a browser that has room for the text in its store, on a platform whose
  \<^verbatim>\<open>JSON.parse\<close> reads back the value that its \<^verbatim>\<open>JSON.stringify\<close> wrote and whose date
  parser reads back the ISO string of each timestamp: saving a sequence of messages with
  valid timestamps and then loading the page yields a sequence of the same length, with
  the same contents and roles, and with timestamps that are the same instants (indeed
  the same messages).
\<close>

theorem C8_save_then_load:
  assumes "window_defined ls"
    and "has_room ls
           ((chat_history_key, JSON_stringify p (JArray (map (json_of_Message p) msgs))) #
            filter (\<lambda>(k', v'). k' \<noteq> chat_history_key) (items ls))"
    and "JSON_stringify p (JArray (map (json_of_Message p) msgs)) \<noteq> []"
    and "JSON_parse p (JSON_stringify p (JArray (map (json_of_Message p) msgs))) =
           Inr (JArray (map (json_of_Message p) msgs))"
    and "\<forall>m\<in>set msgs. \<exists>ms. timestamp m = DateObject ms \<and>
           Date_parse p (toISOString p ms) = Some ms"
  shows "length (messages (chatState (mount p (saveChatHistory p ls msgs) initial_Session))) =
           length msgs \<and>
         map content (messages (chatState (mount p (saveChatHistory p ls msgs) initial_Session))) =
           map content msgs \<and>
         map role (messages (chatState (mount p (saveChatHistory p ls msgs) initial_Session))) =
           map role msgs \<and>
         map timestamp (messages (chatState (mount p (saveChatHistory p ls msgs) initial_Session))) =
           map timestamp msgs \<and>
         messages (chatState (mount p (saveChatHistory p ls msgs) initial_Session)) = msgs"
proof -
  let ?text = "JSON_stringify p (JArray (map (json_of_Message p) msgs))"
  obtain ls' where s: "setItem ls chat_history_key ?text = Inr ls'"
    using assms(2) by (simp add: setItem_def Let_def)
  then have sv: "saveChatHistory p ls msgs = ls'"
    using assms(1) by (simp add: saveChatHistory_def)
  from getItem_setItem [OF s] assms(1)
  have g: "getChatHistory p ls' =
             map (\<lambda>m. m\<lparr>timestamp := timestamp_of (Some (json_of_timestamp p (timestamp m)))\<rparr>)
               msgs"
    by (simp add: getChatHistory_def assms(3,4) Messages_of_json)
  have "messages (chatState (mount p ls' initial_Session)) = msgs"
  proof (cases "msgs = []")
    case True
    then show ?thesis
      by (simp add: messages_mount_empty g initial_Session_def initial_ChatState_def)
  next
    case False
    then show ?thesis
      by (simp add: mount_def g setChatState_def loadSaved_def Let_def
          coerce_serialised [OF assms(5), simplified] split: option.split)
  qed
  then show ?thesis
    by (simp add: sv)
qed

lemma example_json_neq: "example_json \<noteq> []"
  by (simp add: example_json_def js_def)

lemma length_example_json: "length example_json = 86"
  by (simp add: example_json_def example_iso_def dq_def js_def)

lemma json_of_example_messages:
  "JArray (map (json_of_Message example_platform) example_messages) =
     JArray [JObject [(js ''id'', JString (js ''msg_1_u'')),
                      (js ''content'', JString (js ''Hi'')),
                      (js ''role'', JString (js ''user'')),
                      (js ''timestamp'', JString example_iso)]]"
  by (simp add: example_messages_def json_of_Message_def new_Message_def optional_def
      json_of_Role_def json_of_timestamp_def example_platform_def)

lemma example_platform_simps:
  "JSON_stringify example_platform
     (JArray (map (json_of_Message example_platform) example_messages)) = example_json"
  "JSON_parse example_platform example_json =
     Inr (JArray (map (json_of_Message example_platform) example_messages))"
  "toISOString example_platform 1000 = example_iso"
  "Date_parse example_platform example_iso = Some 1000"
  unfolding json_of_example_messages by (simp_all add: example_platform_def)

theorem C8_witness:
  "window_defined example_storage \<and>
   JSON_stringify example_platform
     (JArray (map (json_of_Message example_platform) example_messages)) = example_json \<and>
   JSON_parse example_platform example_json =
     Inr (JArray (map (json_of_Message example_platform) example_messages)) \<and>
   map timestamp example_messages = [DateObject 1000] \<and>
   Date_parse example_platform (toISOString example_platform 1000) = Some 1000 \<and>
   messages (chatState (mount example_platform
      (saveChatHistory example_platform example_storage example_messages) initial_Session)) =
     example_messages"
proof -
  have w: "window_defined example_storage"
    by (simp add: example_storage_def)
  have q: "has_room example_storage
             ((chat_history_key,
               JSON_stringify example_platform
                 (JArray (map (json_of_Message example_platform) example_messages))) #
              filter (\<lambda>(k', v'). k' \<noteq> chat_history_key) (items example_storage))"
    unfolding example_platform_simps
    by (simp add: length_example_json example_storage_def chat_history_key_def js_def)
  have n: "JSON_stringify example_platform
             (JArray (map (json_of_Message example_platform) example_messages)) \<noteq> []"
    by (simp add: example_platform_simps example_json_neq)
  have t: "timestamp (new_Message i c r t) = t" for i c r t
    by (simp add: new_Message_def)
  have j: "JSON_parse example_platform
             (JSON_stringify example_platform
                (JArray (map (json_of_Message example_platform) example_messages))) =
           Inr (JArray (map (json_of_Message example_platform) example_messages))"
    by (simp add: example_platform_simps)
  have d: "\<forall>m\<in>set example_messages. \<exists>ms. timestamp m = DateObject ms \<and>
             Date_parse example_platform (toISOString example_platform ms) = Some ms"
    by (simp add: example_messages_def t example_platform_simps)
  have e: "map timestamp example_messages = [DateObject 1000]"
    "Date_parse example_platform (toISOString example_platform 1000) = Some 1000"
    by (simp_all add: example_messages_def t example_platform_simps)
  from C8_save_then_load [OF w q n j d] w e example_platform_simps(1,2) show ?thesis
    by blast
qed

end
